theory Spec2Isabelle
  imports Main
begin

unbundle bit_operations_syntax

section \<open>The process environment of icetime/iceutil.cc\<close>

text \<open>
  The file has one \<^verbatim>\<open>proc_self_dirname\<close> per platform, selected by the preprocessor
  in the order Linux or Cygwin, FreeBSD, Apple, Win32, OpenBSD, Emscripten.
  \<^verbatim>\<open>find_chipdb\<close> has a second switch, on \<^verbatim>\<open>_WIN32\<close> alone; it is taken to be
  defined on the \<open>Win32\<close> platform only.
\<close>

datatype platform = Linux | FreeBSD | Apple | Win32 | OpenBSD | Emscripten

text \<open>
  Every \<^verbatim>\<open>fprintf(stderr, "fatal error: ...")\<close> followed by \<^verbatim>\<open>exit(EXIT_FAILURE)\<close>
  is an \<open>Exit_failure\<close> naming the call that failed. \<open>Undefined_behaviour\<close> is
  what C and C++ leave undefined: a null or uninitialised pointer handed to a
  function that reads through it.
\<close>

datatype fatal =
  Readlink_failed | Sysctl_failed | Malloc_failed
  | GetModuleFileName_failed | GetShortPathName_failed | Strdup_failed

datatype failure = Exit_failure fatal | Undefined_behaviour

text \<open>What a run of \<^verbatim>\<open>find_chipdb\<close> does that can be observed from outside.\<close>

datatype event = Fopen string | Stderr string

datatype fopen_result = Opened | Fopen_null nat

text \<open>
  The macros \<^verbatim>\<open>PREFIX\<close> and \<^verbatim>\<open>CHIPDB_SUBDIR\<close> come from the build; they are
  string literals, given here by their characters.
\<close>

record config =
  PREFIX :: string
  CHIPDB_SUBDIR :: string

text \<open>
  The operating system, as far as the file looks at it. Each field is the
  observable result of one library or system call; C strings are given by their
  contents, without the terminating NUL.
  \<^item> \<open>getenv\<close>: \<open>None\<close> is the null pointer.
  \<^item> \<open>fopen\<close>: the result of \<^verbatim>\<open>fopen(path, "r")\<close>; \<open>Fopen_null e\<close> is a null
    stream with \<^verbatim>\<open>errno\<close> \<open>e\<close>.
  \<^item> \<open>PATH_MAX\<close>, \<open>MAX_PATH\<close>: the constants of the system headers.
  \<^item> \<open>readlink_target\<close>: the target of a symbolic link as \<^verbatim>\<open>readlink\<close> delivers
    it, \<open>None\<close> when \<^verbatim>\<open>readlink\<close> returns \<open>-1\<close> (which the Linux kernel does
    for \<^verbatim>\<open>/proc/self/exe\<close> also when the path does not fit in \<^verbatim>\<open>PATH_MAX\<close>
    bytes).
  \<^item> \<open>sysctl_size\<close>: the size query \<^verbatim>\<open>sysctl(mib, 4, NULL, &len, NULL, 0)\<close>:
    \<open>None\<close> when it fails, otherwise the length it stores.
  \<^item> \<open>malloc_ok n\<close>, \<open>realloc_ok n\<close>: whether an allocation of \<open>n\<close> bytes
    returns a non-null pointer; \<open>strdup_ok\<close> likewise.
  \<^item> \<open>sysctl_pathname n\<close> (FreeBSD): the second call, with a buffer of \<open>n\<close>
    bytes: \<open>None\<close> when it fails, otherwise the bytes it stores (the length is
    written back to \<^verbatim>\<open>buflen\<close>).
  \<^item> \<open>sysctl_argv n\<close> (OpenBSD): the second call: the argument vector.
  \<^item> \<open>executable_path\<close> (Apple): the path \<^verbatim>\<open>_NSGetExecutablePath\<close> copies.
  \<^item> \<open>module_file_name\<close>, \<open>short_path_name\<close> (Win32): the full module path and
    the short form of a path, as lists of \<^verbatim>\<open>TCHAR\<close> code units; \<open>None\<close> when the
    call fails.
  \<^item> \<open>realpath\<close>: \<open>None\<close> is the null pointer.
  \<^item> \<open>stat_mode\<close>: \<open>None\<close> when \<^verbatim>\<open>stat\<close> fails, otherwise \<^verbatim>\<open>st_mode\<close>.
\<close>

record world =
  getenv :: "string \<Rightarrow> string option"
  fopen :: "string \<Rightarrow> fopen_result"
  PATH_MAX :: nat
  MAX_PATH :: nat
  readlink_target :: "string \<Rightarrow> string option"
  sysctl_size :: "nat option"
  malloc_ok :: "nat \<Rightarrow> bool"
  realloc_ok :: "nat \<Rightarrow> bool"
  strdup_ok :: bool
  sysctl_pathname :: "nat \<Rightarrow> string option"
  sysctl_argv :: "nat \<Rightarrow> string list option"
  executable_path :: string
  module_file_name :: "nat list option"
  short_path_name :: "nat list \<Rightarrow> nat list option"
  realpath :: "string \<Rightarrow> string option"
  stat_mode :: "string \<Rightarrow> nat option"

section \<open>C strings\<close>

definition NUL :: char where
  "NUL = CHR 0x00"

text \<open>\<^verbatim>\<open>std::string::c_str()\<close>, as a C function reads it: up to the first NUL.\<close>

definition c_str :: "string \<Rightarrow> string" where
  "c_str s = takeWhile (\<lambda>c. c \<noteq> NUL) s"

text \<open>
  The loop \<^verbatim>\<open>while (buflen > 0 && path[buflen-1] != '/') buflen--;\<close> that every
  POSIX variant ends with: the value of \<^verbatim>\<open>buflen\<close> after it.
\<close>

fun trim_slash :: "string \<Rightarrow> nat \<Rightarrow> nat" where
  "trim_slash path 0 = 0"
| "trim_slash path (Suc n) =
     (if path ! n \<noteq> CHR ''/'' then trim_slash path n else Suc n)"

section \<open>proc\_self\_dirname, Linux and Cygwin\<close>

text \<open>
  \<^verbatim>\<open>readlink(link, buf, bufsiz)\<close> stores at most \<open>bufsiz\<close> bytes of the target,
  without a NUL, and returns how many it stored; a longer target is cut without
  notice.
\<close>

definition readlink :: "world \<Rightarrow> string \<Rightarrow> nat \<Rightarrow> string option" where
  "readlink w link bufsiz = map_option (take bufsiz) (readlink_target w link)"

definition proc_self_dirname_linux :: "world \<Rightarrow> failure + string" where
  "proc_self_dirname_linux w =
     (case readlink w ''/proc/self/exe'' (PATH_MAX w) of
        None \<Rightarrow> Inl (Exit_failure Readlink_failed)
      | Some path \<Rightarrow>
          (let buflen = length path in
           Inr (take (trim_slash path buflen) path)))"

section \<open>proc\_self\_dirname, FreeBSD\<close>

definition proc_self_dirname_freebsd :: "world \<Rightarrow> failure + string" where
  "proc_self_dirname_freebsd w =
     (case sysctl_size w of
        None \<Rightarrow> Inl (Exit_failure Sysctl_failed)
      | Some buflen \<Rightarrow>
          if \<not> malloc_ok w buflen then Inl (Exit_failure Malloc_failed)
          else
            (case sysctl_pathname w buflen of
               None \<Rightarrow> Inl (Exit_failure Sysctl_failed)
             | Some buffer \<Rightarrow>
                 (let buflen' = length buffer in
                  Inr (take (trim_slash buffer buflen') buffer))))"

section \<open>proc\_self\_dirname, Apple\<close>

text \<open>
  \<^verbatim>\<open>_NSGetExecutablePath(buf, &bufsize)\<close> copies the path and its NUL when
  \<open>bufsize\<close> bytes hold them and returns 0; otherwise it stores the size it needs
  in \<open>bufsize\<close> and returns \<open>-1\<close>. The loop state is whether \<^verbatim>\<open>path\<close> is non-null,
  and \<^verbatim>\<open>buflen\<close>. The result of \<^verbatim>\<open>realloc\<close> is not checked: a null \<^verbatim>\<open>path\<close> is
  written through by the next call. A buffer longer than the path and its NUL
  would be read beyond what the call stored.
\<close>

function NSGetExecutablePath_loop :: "world \<Rightarrow> bool \<Rightarrow> nat \<Rightarrow> failure + string" where
  "NSGetExecutablePath_loop w nonnull buflen =
     (if buflen < length (executable_path w) + 1
      then NSGetExecutablePath_loop w
             (realloc_ok w (length (executable_path w) + 1))
             (length (executable_path w) + 1)
      else if nonnull \<and> buflen = length (executable_path w) + 1
      then Inr (executable_path w @ [NUL])
      else Inl Undefined_behaviour)"
  by pat_completeness auto
termination
  by (relation "measure (\<lambda>(w, nonnull, buflen). length (executable_path w) + 1 - buflen)") auto

definition proc_self_dirname_apple :: "world \<Rightarrow> failure + string" where
  "proc_self_dirname_apple w =
     (case NSGetExecutablePath_loop w False 0 of
        Inl f \<Rightarrow> Inl f
      | Inr path \<Rightarrow>
          (let buflen = length path in
           Inr (take (trim_slash path buflen) path)))"

section \<open>proc\_self\_dirname, Win32\<close>

text \<open>
  The two buffers hold \<^verbatim>\<open>MAX_PATH + 1\<close> characters: of type \<^verbatim>\<open>char\<close> in the MinGW
  branch, \<^verbatim>\<open>WCHAR\<close> and \<^verbatim>\<open>TCHAR\<close> in the other. A character of either kind is
  given by its code unit, a natural number (below 256 for \<^verbatim>\<open>char\<close>); both
  branches then run the same statements. The comparisons with \<^verbatim>\<open>0\<close>, \<^verbatim>\<open>'/'\<close> and
  \<^verbatim>\<open>'\\'\<close> are comparisons of code units, and \<^verbatim>\<open>char(shortpath[i])\<close> keeps the low
  eight bits of a unit (\<open>char_of\<close>).

  \<^verbatim>\<open>GetModuleFileName(0, buf, nSize)\<close> returns 0 when it fails; otherwise the
  length of the path it stored, or \<open>nSize\<close> when the path did not fit and was cut
  to \<open>nSize - 1\<close> characters and a NUL. The pair is the return value and the
  string in the buffer.
\<close>

definition GetModuleFileName :: "world \<Rightarrow> nat \<Rightarrow> nat \<times> nat list" where
  "GetModuleFileName w nSize =
     (case module_file_name w of
        None \<Rightarrow> (0, [])
      | Some full \<Rightarrow>
          if length full < nSize then (length full, full)
          else (nSize, take (nSize - 1) full))"

text \<open>
  \<^verbatim>\<open>GetShortPathName(long, buf, cch)\<close> returns 0 when it fails; the length of the
  short path when it fits with its NUL; otherwise the size it needs, and the
  buffer is left as it was (\<open>None\<close>: \<^verbatim>\<open>shortpath\<close> is an uninitialised array).
\<close>

definition GetShortPathName :: "world \<Rightarrow> nat list \<Rightarrow> nat \<Rightarrow> nat \<times> nat list option" where
  "GetShortPathName w longpath cch =
     (case short_path_name w longpath of
        None \<Rightarrow> (0, None)
      | Some short \<Rightarrow>
          if length short < cch then (length short, Some short)
          else (length short + 1, None))"

text \<open>The string in a buffer of code units: what precedes the first zero.\<close>

definition tstr :: "nat list \<Rightarrow> nat list" where
  "tstr buf = takeWhile (\<lambda>u. u \<noteq> 0) buf"

text \<open>
  \<^verbatim>\<open>while (i > 0 && shortpath[i-1] != '/' && shortpath[i-1] != '\\') shortpath[--i] = 0;\<close>
  on the buffer, which holds the string and its NUL.
\<close>

fun zero_tail :: "nat list \<Rightarrow> nat \<Rightarrow> nat list" where
  "zero_tail shortpath 0 = shortpath"
| "zero_tail shortpath (Suc n) =
     (if shortpath ! n \<noteq> of_char (CHR ''/'') \<and> shortpath ! n \<noteq> of_char (CHR 0x5C)
      then zero_tail (shortpath[n := 0]) n
      else shortpath)"

text \<open>
  The first loop leaves \<^verbatim>\<open>i\<close> at the length of the string; the last one appends
  the narrowed units up to the first zero.
\<close>

definition proc_self_dirname_win32 :: "world \<Rightarrow> failure + string" where
  "proc_self_dirname_win32 w =
     (case GetModuleFileName w (MAX_PATH w + 1) of
        (r1, longpath) \<Rightarrow>
          if r1 = 0 then Inl (Exit_failure GetModuleFileName_failed)
          else
            (case GetShortPathName w longpath (MAX_PATH w + 1) of
               (r2, buf) \<Rightarrow>
                 if r2 = 0 then Inl (Exit_failure GetShortPathName_failed)
                 else
                   (case buf of
                      None \<Rightarrow> Inl Undefined_behaviour
                    | Some short \<Rightarrow>
                        (let shortpath = short @ [0];
                             i = length (tstr shortpath)
                         in Inr (map char_of (tstr (zero_tail shortpath i)))))))"

section \<open>proc\_self\_dirname, OpenBSD\<close>

definition S_IXUSR :: nat where
  "S_IXUSR = 64"

text \<open>\<^verbatim>\<open>!stat(epath, &st) && (st.st_mode & S_IXUSR)\<close>\<close>

definition stat_xusr :: "world \<Rightarrow> string \<Rightarrow> bool" where
  "stat_xusr w epath =
     (case stat_mode w epath of
        None \<Rightarrow> False
      | Some st_mode \<Rightarrow> st_mode AND S_IXUSR \<noteq> 0)"

text \<open>\<^verbatim>\<open>snprintf(buf, size, ...)\<close> stores at most \<open>size - 1\<close> characters and a NUL.\<close>

definition snprintf :: "nat \<Rightarrow> string \<Rightarrow> string" where
  "snprintf n s = take (n - 1) s"

text \<open>
  \<^verbatim>\<open>strdup(getenv("PATH"))\<close>: \<^verbatim>\<open>strdup\<close> reads its argument, so a null argument is
  undefined; its own result is null when the allocation fails.
\<close>

definition strdup :: "world \<Rightarrow> string option \<Rightarrow> failure + string option" where
  "strdup w s =
     (case s of
        None \<Rightarrow> Inl Undefined_behaviour
      | Some x \<Rightarrow> Inr (if strdup_ok w then Some x else None))"

text \<open>
  One call of \<^verbatim>\<open>strtok_r(_, ":", &sp)\<close> on the text that is left: it skips the
  separators in front, and returns the token and what follows the separator
  that ends it (the new \<^verbatim>\<open>sp\<close>), or the null pointer when nothing is left.
\<close>

definition strtok_r :: "string \<Rightarrow> (string \<times> string) option" where
  "strtok_r s =
     (let t = dropWhile (\<lambda>c. c = CHR '':'') s in
      if t = [] then None
      else Some (takeWhile (\<lambda>c. c \<noteq> CHR '':'') t,
                 drop 1 (dropWhile (\<lambda>c. c \<noteq> CHR '':'') t)))"

text \<open>
  The first call is \<^verbatim>\<open>strtok_r(xpath, ":", &sp)\<close> with \<^verbatim>\<open>sp\<close> uninitialised: with a
  null \<^verbatim>\<open>xpath\<close> it continues from \<^verbatim>\<open>sp\<close>.
\<close>

definition strtok_r_first :: "string option \<Rightarrow> failure + (string \<times> string) option" where
  "strtok_r_first xpath =
     (case xpath of
        None \<Rightarrow> Inl Undefined_behaviour
      | Some s \<Rightarrow> Inr (strtok_r s))"

text \<open>
  The \<^verbatim>\<open>while (path)\<close> loop; its state is the last result of \<^verbatim>\<open>strtok_r\<close>. It
  returns \<^verbatim>\<open>epath\<close> when it leaves by \<^verbatim>\<open>break\<close> (\<^verbatim>\<open>ok = 1\<close>), and \<open>None\<close> when
  \<^verbatim>\<open>path\<close> becomes null (\<^verbatim>\<open>ok = 0\<close>).
\<close>

function path_loop :: "world \<Rightarrow> string \<Rightarrow> (string \<times> string) option \<Rightarrow> string option" where
  "path_loop w comm None = None"
| "path_loop w comm (Some (path, sp)) =
     (let epath = snprintf (PATH_MAX w) (path @ ''/'' @ comm) in
      if stat_xusr w epath then Some epath
      else path_loop w comm (strtok_r sp))"
  by pat_completeness auto
termination
proof (relation "measure (\<lambda>(w, comm, tok). case tok of None \<Rightarrow> 0 | Some (path, sp) \<Rightarrow> Suc (length sp))")
  show "wf (measure (\<lambda>(w, comm, tok). case tok of None \<Rightarrow> 0 | Some (path, sp) \<Rightarrow> Suc (length sp)))"
    by simp
next
  fix w :: world and comm path sp :: string and x :: string
  assume "x = snprintf (PATH_MAX w) (path @ ''/'' @ comm)" "\<not> stat_xusr w x"
  have "(case strtok_r sp of None \<Rightarrow> 0 | Some (p, sp') \<Rightarrow> Suc (length sp')) < Suc (length sp)"
  proof (cases "strtok_r sp")
    case None
    then show ?thesis by simp
  next
    case (Some a)
    obtain p sp' where a: "a = (p, sp')" by (cases a)
    let ?t = "dropWhile (\<lambda>c. c = CHR '':'') sp"
    from Some a have t: "?t \<noteq> []" and sp': "sp' = drop 1 (dropWhile (\<lambda>c. c \<noteq> CHR '':'') ?t)"
      by (auto simp: strtok_r_def Let_def split: if_splits)
    have l1: "length sp' = length (dropWhile (\<lambda>c. c \<noteq> CHR '':'') ?t) - 1"
      unfolding sp' by simp
    have l2: "length (dropWhile (\<lambda>c. c \<noteq> CHR '':'') ?t) \<le> length ?t"
      by (rule length_dropWhile_le)
    have l3: "length ?t \<le> length sp"
      by (rule length_dropWhile_le)
    have l4: "0 < length ?t"
      using t by (cases ?t) simp_all
    from l1 l2 l3 l4 have "length sp' < length sp"
      by arith
    with Some a show ?thesis by simp
  qed
  then show "((w, comm, strtok_r sp), (w, comm, Some (path, sp)))
      \<in> measure (\<lambda>(w, comm, tok). case tok of None \<Rightarrow> 0 | Some (path, sp) \<Rightarrow> Suc (length sp))"
    by simp
qed

text \<open>
  The branch for an \<^verbatim>\<open>argv[0]\<close> that starts with neither \<open>/\<close> nor \<open>.\<close>, in the
  order of the source: \<^verbatim>\<open>strdup\<close>, the first \<^verbatim>\<open>strtok_r\<close>, the null check of
  \<^verbatim>\<open>xpath\<close>, the loop.
\<close>

definition path_search :: "world \<Rightarrow> string \<Rightarrow> failure + string option" where
  "path_search w comm =
     (case strdup w (getenv w ''PATH'') of
        Inl f \<Rightarrow> Inl f
      | Inr xpath \<Rightarrow>
          (case strtok_r_first xpath of
             Inl f \<Rightarrow> Inl f
           | Inr path \<Rightarrow>
               if xpath = None then Inl (Exit_failure Strdup_failed)
               else Inr (path_loop w comm path)))"

text \<open>\<^verbatim>\<open>*comm == '/' || *comm == '.'\<close>; \<^verbatim>\<open>*comm\<close> is the NUL when \<^verbatim>\<open>comm\<close> is empty.\<close>

definition path_like :: "string \<Rightarrow> bool" where
  "path_like comm =
     (case comm of
        [] \<Rightarrow> False
      | c # _ \<Rightarrow> c = CHR ''/'' \<or> c = CHR ''.'')"

definition proc_self_dirname_openbsd :: "world \<Rightarrow> failure + string" where
  "proc_self_dirname_openbsd w =
     (case sysctl_size w of
        None \<Rightarrow> Inl (Exit_failure Sysctl_failed)
      | Some len \<Rightarrow>
          if \<not> malloc_ok w len then Inl (Exit_failure Malloc_failed)
          else
            (case sysctl_argv w len of
               None \<Rightarrow> Inl (Exit_failure Sysctl_failed)
             | Some argv \<Rightarrow>
                 (case argv of
                    [] \<Rightarrow> Inl Undefined_behaviour
                  | comm # _ \<Rightarrow>
                      (case (if path_like comm then Inr (realpath w comm)
                             else path_search w comm) of
                         Inl f \<Rightarrow> Inl f
                       | Inr None \<Rightarrow> Inr []
                       | Inr (Some epath) \<Rightarrow>
                           (let len' = length epath in
                            Inr (take (trim_slash epath len') epath))))))"

section \<open>proc\_self\_dirname\<close>

fun proc_self_dirname :: "platform \<Rightarrow> world \<Rightarrow> failure + string" where
  "proc_self_dirname Linux w = proc_self_dirname_linux w"
| "proc_self_dirname FreeBSD w = proc_self_dirname_freebsd w"
| "proc_self_dirname Apple w = proc_self_dirname_apple w"
| "proc_self_dirname Win32 w = proc_self_dirname_win32 w"
| "proc_self_dirname OpenBSD w = proc_self_dirname_openbsd w"
| "proc_self_dirname Emscripten w = Inr ''/''"

section \<open>file\_test\_open and find\_chipdb\<close>

definition file_test_open :: "world \<Rightarrow> string \<Rightarrow> bool" where
  "file_test_open w path =
     (case fopen w (c_str path) of
        Fopen_null e \<Rightarrow> False
      | Opened \<Rightarrow> True)"

text \<open>
  \<^verbatim>\<open>if (verbose) fprintf(stderr, "Looking for chipdb '%s' at %s\n", ...)\<close>, and the
  call of \<^verbatim>\<open>file_test_open\<close> that follows it, as events.
\<close>

definition looking_for :: "string \<Rightarrow> string \<Rightarrow> string" where
  "looking_for config_device path =
     ''Looking for chipdb '' @ [CHR 0x27] @ c_str config_device @ [CHR 0x27]
       @ '' at '' @ c_str path @ [CHR 0x0A]"

definition probe :: "bool \<Rightarrow> string \<Rightarrow> string \<Rightarrow> event list" where
  "probe verbose config_device path =
     (if verbose then [Stderr (looking_for config_device path)] else [])
       @ [Fopen (c_str path)]"

text \<open>\<^verbatim>\<open>PREFIX[0] == '~' && PREFIX[1] == '/'\<close>\<close>

definition home_marker :: "string \<Rightarrow> bool" where
  "home_marker prefix =
     (case prefix of
        c0 # c1 # _ \<Rightarrow> c0 = CHR ''~'' \<and> c1 = CHR ''/''
      | _ \<Rightarrow> False)"

text \<open>
  The value of \<^verbatim>\<open>homepath\<close> before line 236. Appending \<^verbatim>\<open>getenv("HOME")\<close> to a
  \<^verbatim>\<open>std::string\<close> is undefined when it is null; the Win32 branch tests each
  variable before it appends it.
\<close>

definition home_directory :: "platform \<Rightarrow> world \<Rightarrow> failure + string" where
  "home_directory pl w =
     (if pl = Win32 then
        (if getenv w ''USERPROFILE'' \<noteq> None
         then Inr (the (getenv w ''USERPROFILE''))
         else if getenv w ''HOMEDRIVE'' \<noteq> None \<and> getenv w ''HOMEPATH'' \<noteq> None
         then Inr (the (getenv w ''HOMEDRIVE'') @ the (getenv w ''HOMEPATH''))
         else Inr [])
      else
        (case getenv w ''HOME'' of
           None \<Rightarrow> Inl Undefined_behaviour
         | Some home \<Rightarrow> Inr home))"

text \<open>The three path templates, lines 236, 243 and 249.\<close>

definition homepath_of :: "config \<Rightarrow> string \<Rightarrow> string \<Rightarrow> string" where
  "homepath_of cfg home config_device =
     home @ tl (PREFIX cfg) @ ''/'' @ CHIPDB_SUBDIR cfg @ ''/chipdb-'' @ config_device @ ''.txt''"

definition prefixpath_of :: "config \<Rightarrow> string \<Rightarrow> string" where
  "prefixpath_of cfg config_device =
     PREFIX cfg @ ''/share/'' @ CHIPDB_SUBDIR cfg @ ''/chipdb-'' @ config_device @ ''.txt''"

definition relbinarypath_of :: "config \<Rightarrow> string \<Rightarrow> string \<Rightarrow> string" where
  "relbinarypath_of cfg dirname config_device =
     dirname @ ''../share/'' @ CHIPDB_SUBDIR cfg @ ''/chipdb-'' @ config_device @ ''.txt''"

text \<open>
  The \<^verbatim>\<open>if\<close> block of lines 220 to 241: the events, and \<open>Some\<close> of the outcome
  when the function is left inside the block, \<open>None\<close> when control reaches
  line 243.
\<close>

definition home_step ::
  "config \<Rightarrow> platform \<Rightarrow> world \<Rightarrow> bool \<Rightarrow> string \<Rightarrow> event list \<times> (failure + string) option" where
  "home_step cfg pl w verbose config_device =
     (if home_marker (PREFIX cfg) then
        (case home_directory pl w of
           Inl f \<Rightarrow> ([], Some (Inl f))
         | Inr home \<Rightarrow>
             (let homepath = homepath_of cfg home config_device;
                  t = probe verbose config_device homepath
              in if file_test_open w homepath then (t, Some (Inr homepath))
                 else (t, None)))
      else ([], None))"

definition find_chipdb ::
  "config \<Rightarrow> platform \<Rightarrow> world \<Rightarrow> bool \<Rightarrow> string \<Rightarrow> event list \<times> (failure + string)" where
  "find_chipdb cfg pl w verbose config_device =
     (case home_step cfg pl w verbose config_device of
        (t1, Some r) \<Rightarrow> (t1, r)
      | (t1, None) \<Rightarrow>
          (let prefixpath = prefixpath_of cfg config_device;
               t2 = t1 @ probe verbose config_device prefixpath
           in if file_test_open w prefixpath then (t2, Inr prefixpath)
              else
                (case proc_self_dirname pl w of
                   Inl f \<Rightarrow> (t2, Inl f)
                 | Inr dirname \<Rightarrow>
                     (let relbinarypath = relbinarypath_of cfg dirname config_device;
                          t3 = t2 @ probe verbose config_device relbinarypath
                      in if file_test_open w relbinarypath then (t3, Inr relbinarypath)
                         else (t3, Inr [])))))"

section \<open>Vocabulary of the properties\<close>

text \<open>The paths handed to \<^verbatim>\<open>fopen\<close> during a run, in order.\<close>

fun probes :: "event list \<Rightarrow> string list" where
  "probes [] = []"
| "probes (Fopen p # es) = p # probes es"
| "probes (Stderr m # es) = probes es"

text \<open>
  The home-override candidates of a run: none when \<^verbatim>\<open>PREFIX\<close> lacks the
  marker, otherwise the one path of line 236, which exists only when the home
  directory can be read.
\<close>

definition home_candidates :: "config \<Rightarrow> platform \<Rightarrow> world \<Rightarrow> string \<Rightarrow> failure + string list" where
  "home_candidates cfg pl w config_device =
     (if home_marker (PREFIX cfg) then
        (case home_directory pl w of
           Inl f \<Rightarrow> Inl f
         | Inr home \<Rightarrow> Inr [homepath_of cfg home config_device])
      else Inr [])"

text \<open>
  What the verbose flag adds to the events of a quiet run: before each
  \<^verbatim>\<open>fopen\<close>, the line naming the device and the path.
\<close>

fun announce :: "string \<Rightarrow> event list \<Rightarrow> event list" where
  "announce dev [] = []"
| "announce dev (Fopen p # es) = Stderr (looking_for dev p) # Fopen p # announce dev es"
| "announce dev (Stderr m # es) = Stderr m # announce dev es"

text \<open>A path cut after its last \<open>/\<close>: what the POSIX variants return.\<close>

definition dirname_of :: "string \<Rightarrow> string" where
  "dirname_of path = take (trim_slash path (length path)) path"

text \<open>
  On Win32: the code units of \<open>/\<close> and the backslash, the value of \<^verbatim>\<open>i\<close> after
  the loop that zeroes the tail, and a path of code units cut after its last
  separator.
\<close>

definition unit_separator :: "nat \<Rightarrow> bool" where
  "unit_separator u = (u = of_char (CHR ''/'') \<or> u = of_char (CHR 0x5C))"

fun trim_sep :: "nat list \<Rightarrow> nat \<Rightarrow> nat" where
  "trim_sep path 0 = 0"
| "trim_sep path (Suc n) = (if \<not> unit_separator (path ! n) then trim_sep path n else Suc n)"

definition dirname_win :: "nat list \<Rightarrow> nat list" where
  "dirname_win path = take (trim_sep path (length path)) path"

text \<open>
  A string split on \<open>:\<close>, and the entries of a search path: the pieces that
  are not empty.
\<close>

fun split_colon :: "string \<Rightarrow> string list" where
  "split_colon [] = [[]]"
| "split_colon (c # cs) =
     (if c = CHR '':'' then [] # split_colon cs
      else (case split_colon cs of
              [] \<Rightarrow> [[c]]
            | t # ts \<Rightarrow> (c # t) # ts))"

definition path_entries :: "string \<Rightarrow> string list" where
  "path_entries s = filter (\<lambda>t. t \<noteq> []) (split_colon s)"

text \<open>The path the OpenBSD loop tests for an entry of \<^verbatim>\<open>PATH\<close>.\<close>

definition joined :: "world \<Rightarrow> string \<Rightarrow> string \<Rightarrow> string" where
  "joined w d comm = snprintf (PATH_MAX w) (d @ ''/'' @ comm)"

text \<open>
  A directory string as the specification describes it: it ends with exactly
  one separator.
\<close>

definition separator :: "char \<Rightarrow> bool" where
  "separator c = (c = CHR ''/'' \<or> c = CHR 0x5C)"



section \<open>Example environments\<close>

text \<open>
  A machine on which no file opens (\<^verbatim>\<open>ENOENT\<close> is 2), \<^verbatim>\<open>PATH_MAX\<close> is 4096
  as on Linux and \<^verbatim>\<open>MAX_PATH\<close> is 260 as on Windows, the executable is
  \<^verbatim>\<open>/usr/local/bin/icetime\<close>, started as \<^verbatim>\<open>tool\<close>, and \<^verbatim>\<open>/b/tool\<close> is the only
  file \<^verbatim>\<open>stat\<close> finds (mode 0755).
\<close>

definition example_world :: world where
  "example_world =
     \<lparr>getenv = (\<lambda>v. if v = ''HOME'' then Some ''/home/u''
                    else if v = ''PATH'' then Some ''/a:/b:/c'' else None),
      fopen = (\<lambda>p. Fopen_null 2),
      PATH_MAX = 4096,
      MAX_PATH = 260,
      readlink_target = (\<lambda>l. if l = ''/proc/self/exe'' then Some ''/usr/local/bin/icetime'' else None),
      sysctl_size = Some 32,
      malloc_ok = (\<lambda>n. True),
      realloc_ok = (\<lambda>n. True),
      strdup_ok = True,
      sysctl_pathname = (\<lambda>n. Some (''/usr/local/bin/icetime'' @ [NUL])),
      sysctl_argv = (\<lambda>n. Some [''tool'']),
      executable_path = ''/usr/local/bin/icetime'',
      module_file_name =
        Some (map of_char (''C:'' @ [CHR 0x5C] @ ''ice'' @ [CHR 0x5C] @ ''icetime.exe'')),
      short_path_name = (\<lambda>p. Some p),
      realpath = (\<lambda>p. None),
      stat_mode = (\<lambda>p. if p = ''/b/tool'' then Some 493 else None)\<rparr>"

text \<open>The same machine with exactly the files of \<open>ps\<close> openable.\<close>

definition with_files :: "string list \<Rightarrow> world" where
  "with_files ps = example_world\<lparr>fopen := (\<lambda>p. if p \<in> set ps then Opened else Fopen_null 2)\<rparr>"

definition usr_config :: config where
  "usr_config = \<lparr>PREFIX = ''/usr/local'', CHIPDB_SUBDIR = ''icebox''\<rparr>"

definition home_config :: config where
  "home_config = \<lparr>PREFIX = ''~/.local'', CHIPDB_SUBDIR = ''icebox''\<rparr>"

text \<open>Nothing that \<^verbatim>\<open>stat\<close> finds; \<^verbatim>\<open>PATH\<close> unset; \<^verbatim>\<open>strdup\<close> out of memory.\<close>

definition lost_world :: world where
  "lost_world = example_world\<lparr>stat_mode := (\<lambda>p. None)\<rparr>"

definition no_path_world :: world where
  "no_path_world = example_world\<lparr>getenv := (\<lambda>v. None)\<rparr>"

definition no_memory_world :: world where
  "no_memory_world = example_world\<lparr>strdup_ok := False\<rparr>"


text \<open>The program started as \<^verbatim>\<open>bin/tool\<close>, and a \<^verbatim>\<open>/b/bin/tool\<close> that exists.\<close>

definition relative_world :: world where
  "relative_world =
     example_world
       \<lparr>sysctl_argv := (\<lambda>n. Some [''bin/tool'']),
        stat_mode := (\<lambda>p. if p = ''/b/bin/tool'' then Some 493 else None)\<rparr>"

text \<open>\<^verbatim>\<open>/proc\<close> is not there: \<^verbatim>\<open>readlink\<close> fails.\<close>

definition no_exe_world :: world where
  "no_exe_world = example_world\<lparr>readlink_target := (\<lambda>l. None)\<rparr>"

text \<open>
  A Windows program \<^verbatim>\<open>bin\icetime.exe\<close> in a directory \<^verbatim>\<open>b\<close> below 32 nested
  directories \<^verbatim>\<open>aaaaaaa\<close> of drive \<^verbatim>\<open>C:\<close>: the directory \<^verbatim>\<open>b\<close> has a path of 260
  characters, the program one of 276.
\<close>

definition long_dir :: string where
  "long_dir = ''C:'' @ concat (replicate 32 (CHR 0x5C # ''aaaaaaa''))"

definition long_module :: string where
  "long_module = long_dir @ [CHR 0x5C] @ ''b'' @ [CHR 0x5C] @ ''bin'' @ [CHR 0x5C] @ ''icetime.exe''"

definition long_module_world :: world where
  "long_module_world = example_world\<lparr>module_file_name := Some (map of_char long_module)\<rparr>"

text \<open>
  An OpenBSD machine (\<^verbatim>\<open>PATH_MAX\<close> is 1024) whose \<^verbatim>\<open>PATH\<close> is one entry of 1025
  characters, \<^verbatim>\<open>/b/././.../cc\<close> with 510 times \<^verbatim>\<open>/.\<close>; the directory \<^verbatim>\<open>/b\<close>
  exists (mode 040755).
\<close>

definition long_entry_dir :: string where
  "long_entry_dir = ''/b'' @ concat (replicate 510 ''/.'')"

definition long_entry_world :: world where
  "long_entry_world =
     example_world
       \<lparr>PATH_MAX := 1024,
        getenv := (\<lambda>v. if v = ''PATH'' then Some (long_entry_dir @ ''/cc'') else None),
        stat_mode := (\<lambda>p. if p = long_entry_dir @ ''/'' then Some 16877 else None)\<rparr>"

section \<open>The search of find\_chipdb\<close>

lemma probes_append: "probes (xs @ ys) = probes xs @ probes ys"
  by (induction xs rule: probes.induct) simp_all

lemma probes_probe: "probes (probe verbose dev path) = [c_str path]"
  by (simp add: probe_def)

lemma home_step_skip:
  "\<not> home_marker (PREFIX cfg) \<Longrightarrow> home_step cfg pl w verbose dev = ([], None)"
  by (simp add: home_step_def)

lemma home_step_hit:
  "home_marker (PREFIX cfg) \<Longrightarrow> home_directory pl w = Inr home \<Longrightarrow>
   file_test_open w (homepath_of cfg home dev) \<Longrightarrow>
   home_step cfg pl w verbose dev =
     (probe verbose dev (homepath_of cfg home dev), Some (Inr (homepath_of cfg home dev)))"
  by (simp add: home_step_def Let_def)

lemma home_step_miss:
  "home_marker (PREFIX cfg) \<Longrightarrow> home_directory pl w = Inr home \<Longrightarrow>
   \<not> file_test_open w (homepath_of cfg home dev) \<Longrightarrow>
   home_step cfg pl w verbose dev = (probe verbose dev (homepath_of cfg home dev), None)"
  by (simp add: home_step_def Let_def)

lemma home_step_failure:
  "home_marker (PREFIX cfg) \<Longrightarrow> home_directory pl w = Inl f \<Longrightarrow>
   home_step cfg pl w verbose dev = ([], Some (Inl f))"
  by (simp add: home_step_def)

lemma home_candidates_cases:
  assumes "home_candidates cfg pl w dev = Inr hs"
  obtains (skip) "\<not> home_marker (PREFIX cfg)" "hs = []"
  | (home) home where "home_marker (PREFIX cfg)" "home_directory pl w = Inr home"
      "hs = [homepath_of cfg home dev]"
  using assms by (auto simp: home_candidates_def split: if_splits sum.splits)

text \<open>The run from line 243 on, after the events \<open>t1\<close> of the home block.\<close>

lemma find_chipdb_after_home:
  "home_step cfg pl w verbose dev = (t1, None) \<Longrightarrow>
   find_chipdb cfg pl w verbose dev =
     (if file_test_open w (prefixpath_of cfg dev)
      then (t1 @ probe verbose dev (prefixpath_of cfg dev), Inr (prefixpath_of cfg dev))
      else (case proc_self_dirname pl w of
              Inl f \<Rightarrow> (t1 @ probe verbose dev (prefixpath_of cfg dev), Inl f)
            | Inr d \<Rightarrow>
                (t1 @ probe verbose dev (prefixpath_of cfg dev)
                    @ probe verbose dev (relbinarypath_of cfg d dev),
                 Inr (if file_test_open w (relbinarypath_of cfg d dev)
                      then relbinarypath_of cfg d dev else []))))"
  by (simp add: find_chipdb_def Let_def split: sum.splits)

lemma find_chipdb_in_home:
  "home_step cfg pl w verbose dev = (t1, Some r) \<Longrightarrow>
   find_chipdb cfg pl w verbose dev = (t1, r)"
  by (simp add: find_chipdb_def)

text \<open>
  C1. The candidates are tried in the order home override, fixed prefix,
  relative to the executable. The first one that opens is returned and is the
  last path handed to \<^verbatim>\<open>fopen\<close>: a home-override file wins whatever else
  exists, and a fixed-prefix file wins over one beside the executable (whose
  directory is then not even looked up).
\<close>

theorem find_chipdb_priority:
  "home_candidates cfg pl w dev = Inr hs \<Longrightarrow>
   ((\<exists>h\<in>set hs. file_test_open w h) \<longrightarrow>
      snd (find_chipdb cfg pl w verbose dev) = Inr (hd hs) \<and>
      probes (fst (find_chipdb cfg pl w verbose dev)) = [c_str (hd hs)]) \<and>
   ((\<forall>h\<in>set hs. \<not> file_test_open w h) \<and> file_test_open w (prefixpath_of cfg dev) \<longrightarrow>
      snd (find_chipdb cfg pl w verbose dev) = Inr (prefixpath_of cfg dev) \<and>
      probes (fst (find_chipdb cfg pl w verbose dev)) = map c_str (hs @ [prefixpath_of cfg dev])) \<and>
   ((\<forall>h\<in>set hs. \<not> file_test_open w h) \<and> \<not> file_test_open w (prefixpath_of cfg dev) \<and>
    proc_self_dirname pl w = Inr d \<and> file_test_open w (relbinarypath_of cfg d dev) \<longrightarrow>
      snd (find_chipdb cfg pl w verbose dev) = Inr (relbinarypath_of cfg d dev) \<and>
      probes (fst (find_chipdb cfg pl w verbose dev))
        = map c_str (hs @ [prefixpath_of cfg dev, relbinarypath_of cfg d dev]))"
proof (erule home_candidates_cases)
  assume "\<not> home_marker (PREFIX cfg)" and hs: "hs = []"
  then have "home_step cfg pl w verbose dev = ([], None)"
    by (simp add: home_step_skip)
  then show ?thesis
    using hs by (simp add: find_chipdb_after_home probes_append probes_probe)
next
  fix home
  assume m: "home_marker (PREFIX cfg)" and h: "home_directory pl w = Inr home"
    and hs: "hs = [homepath_of cfg home dev]"
  show ?thesis
  proof (cases "file_test_open w (homepath_of cfg home dev)")
    case True
    then show ?thesis
      using hs by (simp add: find_chipdb_in_home [OF home_step_hit [OF m h True]] probes_probe)
  next
    case False
    then show ?thesis
      using hs
      by (simp add: find_chipdb_after_home [OF home_step_miss [OF m h False]]
          probes_append probes_probe)
  qed
qed

subsection \<open>The example environment\<close>

lemma ex_home_candidates:
  "home_candidates home_config Linux (with_files ps) ''hx8k''
     = Inr [''/home/u/.local/icebox/chipdb-hx8k.txt'']"
  by (simp add: home_candidates_def home_config_def home_marker_def home_directory_def
      with_files_def example_world_def homepath_of_def)

lemma ex_proc_self_dirname_linux:
  "proc_self_dirname_linux (with_files ps) = Inr ''/usr/local/bin/''"
  by (simp add: proc_self_dirname_linux_def readlink_def with_files_def example_world_def Let_def)

lemma ex_file_test_open: "file_test_open (with_files ps) p = (c_str p \<in> set ps)"
  by (simp add: file_test_open_def with_files_def)

theorem find_chipdb_priority_witness:
  "snd (find_chipdb home_config Linux
          (with_files [''/home/u/.local/icebox/chipdb-hx8k.txt'',
                       ''~/.local/share/icebox/chipdb-hx8k.txt''])
          False ''hx8k'') = Inr ''/home/u/.local/icebox/chipdb-hx8k.txt'' \<and>
   probes (fst (find_chipdb home_config Linux
          (with_files [''/home/u/.local/icebox/chipdb-hx8k.txt'',
                       ''~/.local/share/icebox/chipdb-hx8k.txt''])
          False ''hx8k'')) = [''/home/u/.local/icebox/chipdb-hx8k.txt''] \<and>
   snd (find_chipdb home_config Linux
          (with_files [''~/.local/share/icebox/chipdb-hx8k.txt'',
                       ''/usr/local/bin/../share/icebox/chipdb-hx8k.txt''])
          False ''hx8k'') = Inr ''~/.local/share/icebox/chipdb-hx8k.txt'' \<and>
   probes (fst (find_chipdb home_config Linux
          (with_files [''~/.local/share/icebox/chipdb-hx8k.txt'',
                       ''/usr/local/bin/../share/icebox/chipdb-hx8k.txt''])
          False ''hx8k''))
     = [''/home/u/.local/icebox/chipdb-hx8k.txt'', ''~/.local/share/icebox/chipdb-hx8k.txt''] \<and>
   snd (find_chipdb home_config Linux
          (with_files [''/usr/local/bin/../share/icebox/chipdb-hx8k.txt''])
          False ''hx8k'') = Inr ''/usr/local/bin/../share/icebox/chipdb-hx8k.txt'' \<and>
   probes (fst (find_chipdb home_config Linux
          (with_files [''/usr/local/bin/../share/icebox/chipdb-hx8k.txt''])
          False ''hx8k''))
     = [''/home/u/.local/icebox/chipdb-hx8k.txt'', ''~/.local/share/icebox/chipdb-hx8k.txt'',
        ''/usr/local/bin/../share/icebox/chipdb-hx8k.txt'']"
proof -
  note defs = ex_file_test_open ex_proc_self_dirname_linux c_str_def NUL_def
    prefixpath_of_def relbinarypath_of_def home_config_def
  note T = find_chipdb_priority [OF ex_home_candidates, of _ False "''/usr/local/bin/''"]
  have 1: "snd (find_chipdb home_config Linux
          (with_files [''/home/u/.local/icebox/chipdb-hx8k.txt'',
                       ''~/.local/share/icebox/chipdb-hx8k.txt''])
          False ''hx8k'') = Inr ''/home/u/.local/icebox/chipdb-hx8k.txt'' \<and>
   probes (fst (find_chipdb home_config Linux
          (with_files [''/home/u/.local/icebox/chipdb-hx8k.txt'',
                       ''~/.local/share/icebox/chipdb-hx8k.txt''])
          False ''hx8k'')) = [''/home/u/.local/icebox/chipdb-hx8k.txt'']"
    using T [of "[''/home/u/.local/icebox/chipdb-hx8k.txt'',
                  ''~/.local/share/icebox/chipdb-hx8k.txt'']"]
    by (simp add: defs)
  have 2: "snd (find_chipdb home_config Linux
          (with_files [''~/.local/share/icebox/chipdb-hx8k.txt'',
                       ''/usr/local/bin/../share/icebox/chipdb-hx8k.txt''])
          False ''hx8k'') = Inr ''~/.local/share/icebox/chipdb-hx8k.txt'' \<and>
   probes (fst (find_chipdb home_config Linux
          (with_files [''~/.local/share/icebox/chipdb-hx8k.txt'',
                       ''/usr/local/bin/../share/icebox/chipdb-hx8k.txt''])
          False ''hx8k''))
     = [''/home/u/.local/icebox/chipdb-hx8k.txt'', ''~/.local/share/icebox/chipdb-hx8k.txt'']"
    using T [of "[''~/.local/share/icebox/chipdb-hx8k.txt'',
                  ''/usr/local/bin/../share/icebox/chipdb-hx8k.txt'']"]
    by (simp add: defs)
  have 3: "snd (find_chipdb home_config Linux
          (with_files [''/usr/local/bin/../share/icebox/chipdb-hx8k.txt''])
          False ''hx8k'') = Inr ''/usr/local/bin/../share/icebox/chipdb-hx8k.txt'' \<and>
   probes (fst (find_chipdb home_config Linux
          (with_files [''/usr/local/bin/../share/icebox/chipdb-hx8k.txt''])
          False ''hx8k''))
     = [''/home/u/.local/icebox/chipdb-hx8k.txt'', ''~/.local/share/icebox/chipdb-hx8k.txt'',
        ''/usr/local/bin/../share/icebox/chipdb-hx8k.txt'']"
    using T [of "[''/usr/local/bin/../share/icebox/chipdb-hx8k.txt'']"]
    by (simp add: defs)
  from 1 2 3 show ?thesis by (simp only: simp_thms)
qed

text \<open>
  C5. With \<^verbatim>\<open>PREFIX\<close> \<^verbatim>\<open>"/opt/tool"\<close>, \<^verbatim>\<open>CHIPDB_SUBDIR\<close> \<^verbatim>\<open>"share/chipdb"\<close> and the
  device \<^verbatim>\<open>hx8k\<close>, the fixed-prefix candidate is
  \<^verbatim>\<open>/opt/tool/share/share/chipdb/chipdb-hx8k.txt\<close>, with \<^verbatim>\<open>share\<close> twice; when that
  file opens, it is the only path tried and the path returned, on every
  platform and whatever else the machine holds.
\<close>

theorem fixed_prefix_doubled_share:
  "fopen w ''/opt/tool/share/share/chipdb/chipdb-hx8k.txt'' = Opened \<Longrightarrow>
   prefixpath_of \<lparr>PREFIX = ''/opt/tool'', CHIPDB_SUBDIR = ''share/chipdb''\<rparr> ''hx8k''
     = ''/opt/tool/share/share/chipdb/chipdb-hx8k.txt'' \<and>
   find_chipdb \<lparr>PREFIX = ''/opt/tool'', CHIPDB_SUBDIR = ''share/chipdb''\<rparr> pl w verbose ''hx8k''
     = (probe verbose ''hx8k'' ''/opt/tool/share/share/chipdb/chipdb-hx8k.txt'',
        Inr ''/opt/tool/share/share/chipdb/chipdb-hx8k.txt'')"
  by (simp add: find_chipdb_def home_step_def home_marker_def prefixpath_of_def
      file_test_open_def c_str_def NUL_def Let_def)

theorem fixed_prefix_doubled_share_witness:
  "fopen (with_files [''/opt/tool/share/share/chipdb/chipdb-hx8k.txt''])
     ''/opt/tool/share/share/chipdb/chipdb-hx8k.txt'' = Opened \<and>
   find_chipdb \<lparr>PREFIX = ''/opt/tool'', CHIPDB_SUBDIR = ''share/chipdb''\<rparr> OpenBSD
     (with_files [''/opt/tool/share/share/chipdb/chipdb-hx8k.txt'']) False ''hx8k''
     = ([Fopen ''/opt/tool/share/share/chipdb/chipdb-hx8k.txt''],
        Inr ''/opt/tool/share/share/chipdb/chipdb-hx8k.txt'')"
proof -
  have h: "fopen (with_files [''/opt/tool/share/share/chipdb/chipdb-hx8k.txt''])
     ''/opt/tool/share/share/chipdb/chipdb-hx8k.txt'' = Opened"
    by (simp add: with_files_def)
  show ?thesis
    using h fixed_prefix_doubled_share [OF h, of OpenBSD False]
    by (simp add: probe_def c_str_def NUL_def)
qed

section \<open>Independence of the run from what it does not read\<close>

lemma NSGetExecutablePath_loop_start:
  "NSGetExecutablePath_loop w False 0 =
     (if realloc_ok w (length (executable_path w) + 1)
      then Inr (executable_path w @ [NUL]) else Inl Undefined_behaviour)"
  by (subst NSGetExecutablePath_loop.simps, subst NSGetExecutablePath_loop.simps) simp

lemma path_loop_world:
  "PATH_MAX w' = PATH_MAX w \<Longrightarrow> stat_mode w' = stat_mode w \<Longrightarrow>
   path_loop w' comm tok = path_loop w comm tok"
proof (induction w comm tok rule: path_loop.induct)
  case (1 w comm)
  then show ?case by simp
next
  case (2 w comm path sp)
  then show ?case
    by (simp add: Let_def stat_xusr_def)
qed


lemma proc_self_dirname_getenv:
  assumes "g ''PATH'' = getenv w ''PATH''"
  shows "proc_self_dirname pl (w\<lparr>getenv := g\<rparr>) = proc_self_dirname pl w"
proof (cases pl)
  case Linux
  then show ?thesis by (simp add: proc_self_dirname_linux_def readlink_def)
next
  case FreeBSD
  then show ?thesis by (simp add: proc_self_dirname_freebsd_def split: option.splits)
next
  case Apple
  then show ?thesis by (simp add: proc_self_dirname_apple_def NSGetExecutablePath_loop_start)
next
  case Win32
  then show ?thesis
    by (simp add: proc_self_dirname_win32_def GetModuleFileName_def GetShortPathName_def
        cong: prod.case_cong option.case_cong if_cong)
next
  case OpenBSD
  have "path_search (w\<lparr>getenv := g\<rparr>) comm = path_search w comm" for comm
    using assms
    by (simp add: path_search_def strdup_def path_loop_world [of "w\<lparr>getenv := g\<rparr>" w]
        cong: option.case_cong sum.case_cong if_cong)
  with OpenBSD show ?thesis
    by (simp add: proc_self_dirname_openbsd_def cong: option.case_cong list.case_cong if_cong)
next
  case Emscripten
  then show ?thesis by simp
qed


lemma file_test_open_getenv: "file_test_open (w\<lparr>getenv := g\<rparr>) p = file_test_open w p"
  by (simp add: file_test_open_def)



text \<open>
  C3. When \<^verbatim>\<open>PREFIX\<close> does not start with \<^verbatim>\<open>~/\<close>, the home block does nothing:
  it opens nothing and returns nothing, there is no home-override candidate,
  the paths tried are the fixed-prefix one and then at most the one beside the
  executable, and the outcome does not depend on the home variables of the
  environment (of the environment only \<^verbatim>\<open>PATH\<close> can matter, to the OpenBSD
  lookup of the executable).
\<close>

theorem no_marker_no_home_candidate:
  "\<not> home_marker (PREFIX cfg) \<Longrightarrow>
   home_step cfg pl w verbose dev = ([], None) \<and>
   home_candidates cfg pl w dev = Inr [] \<and>
   (probes (fst (find_chipdb cfg pl w verbose dev)) = [c_str (prefixpath_of cfg dev)] \<or>
    (\<exists>d. proc_self_dirname pl w = Inr d \<and>
         probes (fst (find_chipdb cfg pl w verbose dev))
           = [c_str (prefixpath_of cfg dev), c_str (relbinarypath_of cfg d dev)])) \<and>
   (g ''PATH'' = getenv w ''PATH'' \<longrightarrow>
      find_chipdb cfg pl (w\<lparr>getenv := g\<rparr>) verbose dev = find_chipdb cfg pl w verbose dev)"
proof -
  assume m: "\<not> home_marker (PREFIX cfg)"
  have s: "home_step cfg pl w' verbose dev = ([], None)" for w'
    using m by (rule home_step_skip)
  have c: "home_candidates cfg pl w dev = Inr []"
    using m by (simp add: home_candidates_def)
  have p: "probes (fst (find_chipdb cfg pl w verbose dev)) = [c_str (prefixpath_of cfg dev)] \<or>
    (\<exists>d. proc_self_dirname pl w = Inr d \<and>
         probes (fst (find_chipdb cfg pl w verbose dev))
           = [c_str (prefixpath_of cfg dev), c_str (relbinarypath_of cfg d dev)])"
    by (cases "proc_self_dirname pl w")
      (simp_all add: find_chipdb_after_home [OF s] probes_append probes_probe)
  have e: "find_chipdb cfg pl (w\<lparr>getenv := g\<rparr>) verbose dev = find_chipdb cfg pl w verbose dev"
    if "g ''PATH'' = getenv w ''PATH''"
    by (simp add: find_chipdb_after_home [OF s] file_test_open_getenv
        proc_self_dirname_getenv [of g w, OF that] cong: sum.case_cong)
  from s c p e show ?thesis by blast
qed

theorem no_marker_no_home_candidate_witness:
  "\<not> home_marker (PREFIX usr_config) \<and>
   file_test_open (with_files [''/home/uusr/local/icebox/chipdb-hx8k.txt''])
     (homepath_of usr_config ''/home/u'' ''hx8k'') \<and>
   home_step usr_config Linux (with_files [''/home/uusr/local/icebox/chipdb-hx8k.txt'']) True ''hx8k''
     = ([], None) \<and>
   find_chipdb usr_config Linux
     ((with_files [''/home/uusr/local/icebox/chipdb-hx8k.txt''])
        \<lparr>getenv := (\<lambda>v. if v = ''PATH'' then Some ''/a:/b:/c'' else None)\<rparr>) True ''hx8k''
     = find_chipdb usr_config Linux (with_files [''/home/uusr/local/icebox/chipdb-hx8k.txt''])
         True ''hx8k''"
proof -
  have m: "\<not> home_marker (PREFIX usr_config)"
    by (simp add: usr_config_def home_marker_def)
  have o: "file_test_open (with_files [''/home/uusr/local/icebox/chipdb-hx8k.txt''])
     (homepath_of usr_config ''/home/u'' ''hx8k'')"
    by (simp add: ex_file_test_open homepath_of_def usr_config_def c_str_def NUL_def)
  have g: "(\<lambda>v. if v = ''PATH'' then Some ''/a:/b:/c'' else None) ''PATH''
      = getenv (with_files [''/home/uusr/local/icebox/chipdb-hx8k.txt'']) ''PATH''"
    by (simp add: with_files_def example_world_def)
  show ?thesis
    using m o g
      no_marker_no_home_candidate [OF m, of Linux
        "with_files [''/home/uusr/local/icebox/chipdb-hx8k.txt'']" True "''hx8k''"
        "\<lambda>v. if v = ''PATH'' then Some ''/a:/b:/c'' else None"]
    by blast
qed




lemma c_str_c_str: "c_str (c_str s) = c_str s"
  by (simp add: c_str_def)

lemma looking_for_c_str: "looking_for dev (c_str path) = looking_for dev path"
  by (simp add: looking_for_def c_str_c_str)

lemma probe_verbose:
  "probe True dev path = [Stderr (looking_for dev (c_str path)), Fopen (c_str path)]"
  "probe False dev path = [Fopen (c_str path)]"
  by (simp_all add: probe_def looking_for_c_str)

lemma announce_append: "announce dev (xs @ ys) = announce dev xs @ announce dev ys"
  by (induction dev xs rule: announce.induct) simp_all

lemma announce_probe: "announce dev (probe False dev path) = probe True dev path"
  by (simp add: probe_verbose)

lemma probes_announce: "probes (announce dev es) = probes es"
  by (induction dev es rule: announce.induct) simp_all

lemma home_step_verbose:
  "home_step cfg pl w True dev =
     (announce dev (fst (home_step cfg pl w False dev)), snd (home_step cfg pl w False dev))"
  by (simp add: home_step_def Let_def announce_probe split: sum.splits)

text \<open>
  C8. The verbose flag changes neither the outcome nor the files tried. A
  quiet run emits nothing but its \<^verbatim>\<open>fopen\<close> calls; the verbose run is the quiet
  one with the line \<^verbatim>\<open>Looking for chipdb '<device>' at <path>\<close> before each of
  them.
\<close>

theorem verbose_is_observational:
  "snd (find_chipdb cfg pl w True dev) = snd (find_chipdb cfg pl w False dev) \<and>
   fst (find_chipdb cfg pl w True dev) = announce dev (fst (find_chipdb cfg pl w False dev)) \<and>
   fst (find_chipdb cfg pl w False dev) = map Fopen (probes (fst (find_chipdb cfg pl w False dev))) \<and>
   probes (fst (find_chipdb cfg pl w True dev)) = probes (fst (find_chipdb cfg pl w False dev))"
proof (cases "home_step cfg pl w False dev")
  case (Pair t1 r)
  then have v: "home_step cfg pl w True dev = (announce dev t1, r)"
    by (simp add: home_step_verbose)
  have q: "t1 = map Fopen (probes t1)"
    using Pair by (auto simp: home_step_def Let_def probe_verbose split: if_splits sum.splits)
  have pa: "probes (announce dev t1) = probes t1"
    by (rule probes_announce)
  show ?thesis
  proof (cases r)
    case None
    show ?thesis
      using q pa
      by (cases "proc_self_dirname pl w")
        (simp_all add: find_chipdb_after_home [OF Pair [unfolded None]]
          find_chipdb_after_home [OF v [unfolded None]] announce_append probes_append
          probe_verbose)
  next
    case (Some a)
    show ?thesis
      using q pa
      by (simp add: find_chipdb_in_home [OF Pair [unfolded Some]]
          find_chipdb_in_home [OF v [unfolded Some]])
  qed
qed

theorem verbose_is_observational_witness:
  "snd (find_chipdb usr_config Linux (with_files []) True ''hx8k'') = Inr [] \<and>
   snd (find_chipdb usr_config Linux (with_files []) False ''hx8k'') = Inr [] \<and>
   fst (find_chipdb usr_config Linux (with_files []) False ''hx8k'')
     = [Fopen ''/usr/local/share/icebox/chipdb-hx8k.txt'',
        Fopen ''/usr/local/bin/../share/icebox/chipdb-hx8k.txt''] \<and>
   fst (find_chipdb usr_config Linux (with_files []) True ''hx8k'')
     = [Stderr (''Looking for chipdb '' @ [CHR 0x27] @ ''hx8k'' @ [CHR 0x27] @ '' at ''
                @ ''/usr/local/share/icebox/chipdb-hx8k.txt'' @ [CHR 0x0A]),
        Fopen ''/usr/local/share/icebox/chipdb-hx8k.txt'',
        Stderr (''Looking for chipdb '' @ [CHR 0x27] @ ''hx8k'' @ [CHR 0x27] @ '' at ''
                @ ''/usr/local/bin/../share/icebox/chipdb-hx8k.txt'' @ [CHR 0x0A]),
        Fopen ''/usr/local/bin/../share/icebox/chipdb-hx8k.txt'']"
proof -
  have q: "find_chipdb usr_config Linux (with_files []) False ''hx8k''
      = ([Fopen ''/usr/local/share/icebox/chipdb-hx8k.txt'',
          Fopen ''/usr/local/bin/../share/icebox/chipdb-hx8k.txt''], Inr [])"
    by (simp add: find_chipdb_def home_step_def home_marker_def usr_config_def Let_def
        ex_file_test_open ex_proc_self_dirname_linux prefixpath_of_def relbinarypath_of_def
        probe_def c_str_def NUL_def)
  show ?thesis
    using verbose_is_observational [of usr_config Linux "with_files []" "''hx8k''"]
    by (simp add: q looking_for_def c_str_def NUL_def)
qed

section \<open>The home directory\<close>

text \<open>
  C9. Outside Win32 the home block appends \<^verbatim>\<open>getenv("HOME")\<close> unchecked: with
  the marker in \<^verbatim>\<open>PREFIX\<close> and \<^verbatim>\<open>HOME\<close> unset, \<^verbatim>\<open>find_chipdb\<close> has undefined
  behaviour before it tries any file, and the home directory is defined
  exactly when \<^verbatim>\<open>HOME\<close> is set. On Win32 every variable is tested before it is
  appended, and the home directory is always defined (it may be empty).
\<close>

theorem home_needs_HOME:
  "(pl \<noteq> Win32 \<and> home_marker (PREFIX cfg) \<and> getenv w ''HOME'' = None \<longrightarrow>
      find_chipdb cfg pl w verbose dev = ([], Inl Undefined_behaviour)) \<and>
   (pl \<noteq> Win32 \<longrightarrow>
      (home_directory pl w = Inl Undefined_behaviour) = (getenv w ''HOME'' = None)) \<and>
   (pl \<noteq> Win32 \<and> getenv w ''HOME'' = Some home \<longrightarrow> home_directory pl w = Inr home) \<and>
   (\<exists>h. home_directory Win32 w = Inr h)"
proof -
  have 1: "find_chipdb cfg pl w verbose dev = ([], Inl Undefined_behaviour)"
    if "pl \<noteq> Win32" "home_marker (PREFIX cfg)" "getenv w ''HOME'' = None"
  proof -
    from that have "home_directory pl w = Inl Undefined_behaviour"
      by (simp add: home_directory_def)
    from find_chipdb_in_home [OF home_step_failure [OF that(2) this]] show ?thesis .
  qed
  have 2: "(home_directory pl w = Inl Undefined_behaviour) = (getenv w ''HOME'' = None)"
    if "pl \<noteq> Win32"
    using that by (simp add: home_directory_def split: option.splits)
  have 3: "home_directory pl w = Inr home" if "pl \<noteq> Win32" "getenv w ''HOME'' = Some home"
    using that by (simp add: home_directory_def)
  have 4: "\<exists>h. home_directory Win32 w = Inr h"
    by (simp add: home_directory_def)
  from 1 2 3 4 show ?thesis by blast
qed

theorem home_needs_HOME_witness:
  "find_chipdb home_config Linux (example_world\<lparr>getenv := (\<lambda>v. None)\<rparr>) True ''hx8k''
     = ([], Inl Undefined_behaviour) \<and>
   home_directory Linux example_world = Inr ''/home/u'' \<and>
   home_directory Win32 (example_world\<lparr>getenv := (\<lambda>v. None)\<rparr>) = Inr []"
proof -
  have a: "Linux \<noteq> Win32 \<and> home_marker (PREFIX home_config)
      \<and> getenv (example_world\<lparr>getenv := (\<lambda>v. None)\<rparr>) ''HOME'' = None"
    by (simp add: home_config_def home_marker_def)
  have b: "Linux \<noteq> Win32 \<and> getenv example_world ''HOME'' = Some ''/home/u''"
    by (simp add: example_world_def)
  have c: "home_directory Win32 (example_world\<lparr>getenv := (\<lambda>v. None)\<rparr>) = Inr []"
    by (simp add: home_directory_def)
  show ?thesis
    using a b c
      home_needs_HOME [of Linux home_config "example_world\<lparr>getenv := (\<lambda>v. None)\<rparr>" True "''hx8k''"]
      home_needs_HOME [of Linux _ example_world _ _ "''/home/u''"]
    by blast
qed

section \<open>Cutting a path after its last separator\<close>



lemma trim_slash_skip:
  "k \<le> n \<Longrightarrow> (\<And>j. k \<le> j \<Longrightarrow> j < n \<Longrightarrow> path ! j \<noteq> CHR ''/'') \<Longrightarrow>
   trim_slash path n = trim_slash path k"
proof (induction n)
  case 0
  then show ?case by simp
next
  case (Suc n)
  show ?case
  proof (cases "k = Suc n")
    case True
    then show ?thesis by simp
  next
    case False
    with Suc.prems(1) have k: "k \<le> n" by simp
    have "path ! n \<noteq> CHR ''/''"
      using Suc.prems(2) [of n] k by simp
    moreover have "trim_slash path n = trim_slash path k"
      using k Suc.prems(2) by (intro Suc.IH) simp_all
    ultimately show ?thesis by simp
  qed
qed


lemma dirname_of_append:
  assumes "CHR ''/'' \<notin> set name"
  shows "dirname_of (xs @ CHR ''/'' # name) = xs @ [CHR ''/'']"
proof -
  let ?p = "xs @ CHR ''/'' # name"
  have "trim_slash ?p (length ?p) = trim_slash ?p (Suc (length xs))"
  proof (rule trim_slash_skip)
    show "Suc (length xs) \<le> length ?p" by simp
  next
    fix j assume j: "Suc (length xs) \<le> j" "j < length ?p"
    then have "?p ! j = name ! (j - Suc (length xs))"
      by (simp add: nth_append nth_Cons')
    moreover have "j - Suc (length xs) < length name"
      using j by simp
    ultimately show "?p ! j \<noteq> CHR ''/''"
      using assms by (metis nth_mem)
  qed
  also have "\<dots> = Suc (length xs)" by simp
  finally show ?thesis by (simp add: dirname_of_def)
qed


section \<open>The Win32 buffer\<close>


lemma trim_sep_le: "trim_sep path n \<le> n"
  by (induction n) auto

lemma trim_sep_take: "n \<le> m \<Longrightarrow> trim_sep (take m path) n = trim_sep path n"
  by (induction n) simp_all

lemma trim_sep_update: "n \<le> m \<Longrightarrow> trim_sep (path[m := c]) n = trim_sep path n"
  by (induction n) simp_all


lemma tstr_to_zero:
  "n < length b \<Longrightarrow> b ! n = 0 \<Longrightarrow> (\<And>j. j < n \<Longrightarrow> b ! j \<noteq> 0) \<Longrightarrow> tstr b = take n b"
  unfolding tstr_def by (rule takeWhile_eq_take_P_nth) simp_all

lemma tstr_zero_tail:
  "n < length b \<Longrightarrow> b ! n = 0 \<Longrightarrow> (\<And>j. j < n \<Longrightarrow> b ! j \<noteq> 0) \<Longrightarrow>
   tstr (zero_tail b n) = take (trim_sep b n) b"
proof (induction n arbitrary: b)
  case 0
  then show ?case
    using tstr_to_zero [of 0 b] by simp
next
  case (Suc n)
  show ?case
  proof (cases "unit_separator (b ! n)")
    case True
    then show ?thesis
      using tstr_to_zero [of "Suc n" b] Suc.prems by (auto simp: unit_separator_def)
  next
    case False
    have "tstr (zero_tail (b[n := 0]) n) = take (trim_sep (b[n := 0]) n) (b[n := 0])"
      using Suc.prems by (intro Suc.IH) simp_all
    also have "\<dots> = take (trim_sep b n) b"
      using trim_sep_le [of b n] by (simp add: trim_sep_update)
    finally show ?thesis using False by (simp add: unit_separator_def)
  qed
qed

lemma dirname_win_take: "i \<le> length b \<Longrightarrow> take (trim_sep b i) b = dirname_win (take i b)"
  using trim_sep_le [of b i] by (simp add: dirname_win_def trim_sep_take min_def)

lemma win32_buffer:
  "tstr (zero_tail (short @ [0]) (length (tstr (short @ [0])))) = dirname_win (tstr short)"
proof -
  let ?b = "short @ [0]"
  let ?i = "length (tstr ?b)"
  have cb: "tstr ?b = tstr short"
    by (induction short) (simp_all add: tstr_def)
  have i: "?i < length ?b"
    unfolding cb using length_takeWhile_le [of "\<lambda>u. u \<noteq> 0" short] by (simp add: tstr_def)
  have z: "?b ! ?i = 0"
    using nth_length_takeWhile [of "\<lambda>u. u \<noteq> 0" ?b] i by (simp add: tstr_def)
  have nz: "?b ! j \<noteq> 0" if "j < ?i" for j
  proof -
    from that have "takeWhile (\<lambda>u. u \<noteq> 0) ?b ! j \<in> set (takeWhile (\<lambda>u. u \<noteq> 0) ?b)"
      unfolding tstr_def by (rule nth_mem)
    then have "takeWhile (\<lambda>u. u \<noteq> 0) ?b ! j \<noteq> 0"
      by (blast dest: set_takeWhileD)
    then show ?thesis
      using that unfolding tstr_def by (simp add: takeWhile_nth)
  qed
  have "tstr ?b = take ?i ?b"
    unfolding tstr_def by (rule takeWhile_eq_take)
  from trans [OF this [symmetric] cb] have t: "take ?i ?b = tstr short" .
  have "tstr (zero_tail ?b ?i) = take (trim_sep ?b ?i) ?b"
    using i z nz by (rule tstr_zero_tail)
  also have "\<dots> = dirname_win (take ?i ?b)"
    using i by (intro dirname_win_take) (rule less_imp_le)
  finally show ?thesis
    by (simp only: t)
qed



lemma dirname_win_append:
  assumes "unit_separator s" "\<forall>u\<in>set name. \<not> unit_separator u"
  shows "dirname_win (xs @ s # name) = xs @ [s]"
proof -
  let ?p = "xs @ s # name"
  have "trim_sep ?p (length xs + Suc n) = Suc (length xs)" if "n \<le> length name" for n
    using that
  proof (induction n)
    case 0
    then show ?case using assms(1) by simp
  next
    case (Suc n)
    then have "name ! n \<in> set name" by simp
    with assms(2) have "\<not> unit_separator (name ! n)" by blast
    with Suc show ?case by (simp add: nth_append)
  qed
  from this [of "length name"] show ?thesis
    by (simp add: dirname_win_def)
qed

section \<open>What each variant returns\<close>

lemma proc_self_dirname_linux_eq:
  "proc_self_dirname_linux w =
     (case readlink_target w ''/proc/self/exe'' of
        None \<Rightarrow> Inl (Exit_failure Readlink_failed)
      | Some target \<Rightarrow> Inr (dirname_of (take (PATH_MAX w) target)))"
  by (simp add: proc_self_dirname_linux_def readlink_def dirname_of_def Let_def
      split: option.splits)



lemma proc_self_dirname_win32_eq:
  "proc_self_dirname_win32 w =
     (case module_file_name w of
        None \<Rightarrow> Inl (Exit_failure GetModuleFileName_failed)
      | Some full \<Rightarrow>
          if full = [] then Inl (Exit_failure GetModuleFileName_failed)
          else (case short_path_name w (take (MAX_PATH w) full) of
                  None \<Rightarrow> Inl (Exit_failure GetShortPathName_failed)
                | Some short \<Rightarrow>
                    if short = [] then Inl (Exit_failure GetShortPathName_failed)
                    else if MAX_PATH w < length short then Inl Undefined_behaviour
                    else Inr (map char_of (dirname_win (tstr short)))))"
  by (auto simp: proc_self_dirname_win32_def GetModuleFileName_def GetShortPathName_def
      win32_buffer Let_def split: option.splits)

lemma proc_self_dirname_openbsd_eq:
  "proc_self_dirname_openbsd w =
     (case sysctl_size w of
        None \<Rightarrow> Inl (Exit_failure Sysctl_failed)
      | Some n \<Rightarrow>
          if \<not> malloc_ok w n then Inl (Exit_failure Malloc_failed)
          else (case sysctl_argv w n of
                  None \<Rightarrow> Inl (Exit_failure Sysctl_failed)
                | Some [] \<Rightarrow> Inl Undefined_behaviour
                | Some (comm # rest) \<Rightarrow>
                    (case (if path_like comm then Inr (realpath w comm) else path_search w comm) of
                       Inl f \<Rightarrow> Inl f
                     | Inr None \<Rightarrow> Inr []
                     | Inr (Some epath) \<Rightarrow> Inr (dirname_of epath))))"
  by (simp add: proc_self_dirname_openbsd_def dirname_of_def Let_def
      split: option.splits list.splits sum.splits)

section \<open>The search along PATH\<close>

lemma split_colon_unfold:
  "split_colon s =
     takeWhile (\<lambda>c. c \<noteq> CHR '':'') s
       # (case dropWhile (\<lambda>c. c \<noteq> CHR '':'') s of [] \<Rightarrow> [] | c # r \<Rightarrow> split_colon r)"
  by (induction s) simp_all

lemma path_entries_Nil: "path_entries [] = []"
  by (simp add: path_entries_def)

lemma path_entries_dropWhile:
  "path_entries (dropWhile (\<lambda>c. c = CHR '':'') s) = path_entries s"
  by (induction s) (simp_all add: path_entries_def)

lemma strtok_r_None: "strtok_r s = None \<Longrightarrow> path_entries s = []"
proof -
  assume "strtok_r s = None"
  then have "dropWhile (\<lambda>c. c = CHR '':'') s = []"
    by (simp add: strtok_r_def Let_def split: if_splits)
  with path_entries_dropWhile [of s] show ?thesis
    by (simp add: path_entries_Nil)
qed

lemma strtok_r_Some:
  assumes "strtok_r s = Some (t, sp)"
  shows "path_entries s = t # path_entries sp"
proof -
  define u where "u = dropWhile (\<lambda>c. c = CHR '':'') s"
  define v where "v = dropWhile (\<lambda>c. c \<noteq> CHR '':'') u"
  from assms have u: "u \<noteq> []" and t: "t = takeWhile (\<lambda>c. c \<noteq> CHR '':'') u"
    and sp: "sp = drop 1 v"
    unfolding u_def v_def by (auto simp: strtok_r_def Let_def split: if_splits)
  have "hd u \<noteq> CHR '':''"
    using u hd_dropWhile [of "\<lambda>c. c = CHR '':''" s] unfolding u_def by blast
  with u have tne: "t \<noteq> []"
    unfolding t by (cases u) simp_all
  have sc: "split_colon u = t # (case v of [] \<Rightarrow> [] | c # r \<Rightarrow> split_colon r)"
    unfolding t v_def by (rule split_colon_unfold)
  have "path_entries u = t # path_entries sp"
  proof (cases v)
    case Nil
    with sp have "sp = []" by simp
    then show ?thesis
      using tne Nil by (simp add: path_entries_def sc)
  next
    case (Cons c r)
    with sp have "sp = r" by simp
    then show ?thesis
      using tne Cons by (simp add: path_entries_def sc)
  qed
  then show ?thesis
    unfolding u_def by (simp only: path_entries_dropWhile)
qed

lemma path_loop_find:
  "path_loop w comm (strtok_r s) =
     List.find (stat_xusr w) (map (\<lambda>d. snprintf (PATH_MAX w) (d @ ''/'' @ comm)) (path_entries s))"
proof (induction ds \<equiv> "path_entries s" arbitrary: s)
  case Nil
  then have "strtok_r s = None"
    by (cases "strtok_r s") (auto dest: strtok_r_Some)
  with Nil show ?case by simp
next
  case (Cons d ds)
  then obtain t sp where ts: "strtok_r s = Some (t, sp)"
    by (cases "strtok_r s") (auto dest: strtok_r_None)
  from strtok_r_Some [OF ts] Cons.hyps(2) have eq: "d = t" "ds = path_entries sp"
    by simp_all
  from Cons.hyps(1) [OF eq(2)] show ?case
    by (simp add: ts strtok_r_Some [OF ts] Let_def)
qed

lemma path_search_eq:
  "path_search w comm =
     (case getenv w ''PATH'' of
        None \<Rightarrow> Inl Undefined_behaviour
      | Some p \<Rightarrow>
          if strdup_ok w
          then Inr (List.find (stat_xusr w)
                      (map (\<lambda>d. snprintf (PATH_MAX w) (d @ ''/'' @ comm)) (path_entries p)))
          else Inl Undefined_behaviour)"
  by (simp add: path_search_def strdup_def strtok_r_first_def path_loop_find split: option.splits)

section \<open>The directory of the executable\<close>

lemma ex_openbsd_args:
  "sysctl_size example_world = Some 32" "malloc_ok example_world 32"
  "sysctl_argv example_world 32 = Some [''tool'']" "\<not> path_like ''tool''"
  "getenv example_world ''PATH'' = Some ''/a:/b:/c''" "strdup_ok example_world"
  by (simp_all add: example_world_def path_like_def)

lemma ex_path_entries: "path_entries ''/a:/b:/c'' = [''/a'', ''/b'', ''/c'']"
  by (simp add: path_entries_def)


lemma length_concat_replicate: "length (concat (replicate n xs)) = n * length xs"
  by (induction n) simp_all
















subsection \<open>OpenBSD: the search for a bare command name\<close>

lemma find_first_match:
  "(\<And>e. e \<in> set ds \<Longrightarrow> \<not> P (f e)) \<Longrightarrow> P (f d) \<Longrightarrow>
   List.find P (map f (ds @ d # ds')) = Some (f d)"
  by (induction ds) simp_all

lemma find_no_match:
  "(\<And>e. e \<in> set ds \<Longrightarrow> \<not> P (f e)) \<Longrightarrow> List.find P (map f ds) = None"
  by (induction ds) simp_all

text \<open>
  C6, as the code has it. On OpenBSD, once \<^verbatim>\<open>argv[0]\<close> is obtained and starts
  with neither \<open>/\<close> nor \<open>.\<close>, and provided \<^verbatim>\<open>PATH\<close> is set and \<^verbatim>\<open>strdup\<close>
  succeeds: the entries of \<^verbatim>\<open>PATH\<close> (its pieces between \<open>:\<close> that are not empty)
  are joined with \<open>/\<close> and \<^verbatim>\<open>argv[0]\<close>, cut to \<^verbatim>\<open>PATH_MAX - 1\<close> characters, and
  tested in order with \<^verbatim>\<open>stat\<close> and the owner's execute bit. The result is the
  first joined path that passes, cut after its last \<open>/\<close>, and the empty string
  when none passes. When \<^verbatim>\<open>argv[0]\<close> holds no \<open>/\<close> and the joined path fits,
  that is the entry followed by \<open>/\<close>.
\<close>

theorem openbsd_path_search:
  "sysctl_size w = Some len \<Longrightarrow> malloc_ok w len \<Longrightarrow>
   sysctl_argv w len = Some (comm # rest) \<Longrightarrow> \<not> path_like comm \<Longrightarrow>
   getenv w ''PATH'' = Some p \<Longrightarrow> strdup_ok w \<Longrightarrow>
   proc_self_dirname OpenBSD w =
     Inr (case List.find (stat_xusr w) (map (\<lambda>d. joined w d comm) (path_entries p)) of
            None \<Rightarrow> []
          | Some epath \<Rightarrow> dirname_of epath) \<and>
   ((\<forall>e\<in>set (path_entries p). \<not> stat_xusr w (joined w e comm)) \<longrightarrow>
      proc_self_dirname OpenBSD w = Inr []) \<and>
   (path_entries p = ds @ d # ds' \<and> (\<forall>e\<in>set ds. \<not> stat_xusr w (joined w e comm)) \<and>
    stat_xusr w (joined w d comm) \<longrightarrow>
      proc_self_dirname OpenBSD w = Inr (dirname_of (joined w d comm))) \<and>
   (CHR ''/'' \<notin> set comm \<and> length (d @ ''/'' @ comm) < PATH_MAX w \<longrightarrow>
      joined w d comm = d @ ''/'' @ comm \<and> dirname_of (joined w d comm) = d @ ''/'')"
proof -
  assume a: "sysctl_size w = Some len" "malloc_ok w len" "sysctl_argv w len = Some (comm # rest)"
    "\<not> path_like comm" "getenv w ''PATH'' = Some p" "strdup_ok w"
  have 1: "proc_self_dirname OpenBSD w =
     Inr (case List.find (stat_xusr w) (map (\<lambda>d. joined w d comm) (path_entries p)) of
            None \<Rightarrow> []
          | Some epath \<Rightarrow> dirname_of epath)"
    using a by (simp add: proc_self_dirname_openbsd_eq path_search_eq joined_def split: option.splits)
  have 2: "proc_self_dirname OpenBSD w = Inr []"
    if "\<forall>e\<in>set (path_entries p). \<not> stat_xusr w (joined w e comm)"
    using that unfolding 1 by (simp add: find_no_match)
  have 3: "proc_self_dirname OpenBSD w = Inr (dirname_of (joined w d comm))"
    if "path_entries p = ds @ d # ds'" "\<forall>e\<in>set ds. \<not> stat_xusr w (joined w e comm)"
      "stat_xusr w (joined w d comm)"
  proof -
    have "List.find (stat_xusr w) (map (\<lambda>d. joined w d comm) (ds @ d # ds'))
        = Some (joined w d comm)"
      using that(2,3) by (intro find_first_match) simp_all
    then show ?thesis
      unfolding 1 that(1) by simp
  qed
  have 4: "joined w d comm = d @ ''/'' @ comm \<and> dirname_of (joined w d comm) = d @ ''/''"
    if "CHR ''/'' \<notin> set comm" "length (d @ ''/'' @ comm) < PATH_MAX w"
  proof -
    from that(2) have "joined w d comm = d @ CHR ''/'' # comm"
      by (simp add: joined_def snprintf_def)
    with dirname_of_append [OF that(1), of d] show ?thesis by simp
  qed
  from 1 2 3 4 show ?thesis by blast
qed

theorem openbsd_path_search_witness:
  "path_entries ''/a:/b:/c'' = [''/a'', ''/b'', ''/c''] \<and>
   \<not> stat_xusr example_world ''/a/tool'' \<and> stat_xusr example_world ''/b/tool'' \<and>
   proc_self_dirname OpenBSD example_world = Inr ''/b/'' \<and>
   proc_self_dirname OpenBSD lost_world = Inr []"
proof -
  note T = openbsd_path_search [OF ex_openbsd_args, of "[''/a'']" "''/b''" "[''/c'']"]
  have s: "\<not> stat_xusr example_world ''/a/tool''" "stat_xusr example_world ''/b/tool''"
    by (simp_all add: stat_xusr_def example_world_def S_IXUSR_def)
  have m: "PATH_MAX example_world = 4096"
    by (simp add: example_world_def)
  have j: "joined example_world ''/a'' ''tool'' = ''/a/tool''"
    "joined example_world ''/b'' ''tool'' = ''/b/tool''"
    by (simp_all add: joined_def snprintf_def m)
  have 1: "proc_self_dirname OpenBSD example_world = Inr ''/b/''"
    using T s by (simp add: ex_path_entries m j)
  have l: "sysctl_size lost_world = Some 32" "malloc_ok lost_world 32"
    "sysctl_argv lost_world 32 = Some [''tool'']"
    "getenv lost_world ''PATH'' = Some ''/a:/b:/c''" "strdup_ok lost_world"
    by (simp_all add: lost_world_def example_world_def)
  have 2: "proc_self_dirname OpenBSD lost_world = Inr []"
    using openbsd_path_search [OF l(1,2,3) ex_openbsd_args(4) l(4,5)]
    by (simp add: stat_xusr_def lost_world_def ex_path_entries)
  from 1 2 s ex_path_entries show ?thesis by simp
qed

text \<open>
  Two runs of this branch that are not as the specification describes it.
  Started as \<^verbatim>\<open>bin/tool\<close>
  with \<^verbatim>\<open>PATH=/a:/b:/c\<close> and an executable \<^verbatim>\<open>/b/bin/tool\<close>, the match is found
  for the entry \<^verbatim>\<open>/b\<close> and the result is \<^verbatim>\<open>/b/bin/\<close>, not \<^verbatim>\<open>/b/\<close>. With \<^verbatim>\<open>PATH\<close>
  unset no entry matches, and the result is not the empty string: the
  behaviour is undefined.
\<close>

theorem openbsd_path_search_counterexample:
  "sysctl_argv relative_world 32 = Some [''bin/tool''] \<and>
   \<not> path_like ''bin/tool'' \<and>
   getenv relative_world ''PATH'' = Some ''/a:/b:/c'' \<and>
   \<not> stat_xusr relative_world ''/a/bin/tool'' \<and>
   stat_xusr relative_world ''/b/bin/tool'' \<and>
   proc_self_dirname OpenBSD relative_world = Inr ''/b/bin/'' \<and>
   getenv no_path_world ''PATH'' = None \<and>
   proc_self_dirname OpenBSD no_path_world = Inl Undefined_behaviour"
proof -
  have 1: "proc_self_dirname OpenBSD relative_world = Inr ''/b/bin/''"
    by (simp add: proc_self_dirname_openbsd_eq path_search_eq relative_world_def example_world_def
        path_like_def ex_path_entries stat_xusr_def snprintf_def S_IXUSR_def dirname_of_def)
  have 2: "proc_self_dirname OpenBSD no_path_world = Inl Undefined_behaviour"
    by (simp add: proc_self_dirname_openbsd_eq path_search_eq no_path_world_def example_world_def
        path_like_def)
  have 3: "sysctl_argv relative_world 32 = Some [''bin/tool'']" "\<not> path_like ''bin/tool''"
    "getenv relative_world ''PATH'' = Some ''/a:/b:/c''"
    "\<not> stat_xusr relative_world ''/a/bin/tool''" "stat_xusr relative_world ''/b/bin/tool''"
    "getenv no_path_world ''PATH'' = None"
    by (simp_all add: relative_world_def no_path_world_def example_world_def path_like_def
        stat_xusr_def S_IXUSR_def)
  from 1 2 3 show ?thesis by simp
qed

text \<open>
  C10. In the same branch the result of \<^verbatim>\<open>strdup(getenv("PATH"))\<close> reaches
  \<^verbatim>\<open>strtok_r\<close> before it is tested: with \<^verbatim>\<open>PATH\<close> unset or \<^verbatim>\<open>strdup\<close> failing
  the behaviour is undefined, the exit for a failed \<^verbatim>\<open>strdup\<close> is never taken,
  and the variant returns exactly when \<^verbatim>\<open>PATH\<close> is set and \<^verbatim>\<open>strdup\<close> succeeds.
\<close>

theorem openbsd_strdup_guard_is_late:
  "sysctl_size w = Some len \<Longrightarrow> malloc_ok w len \<Longrightarrow>
   sysctl_argv w len = Some (comm # rest) \<Longrightarrow> \<not> path_like comm \<Longrightarrow>
   (getenv w ''PATH'' = None \<or> \<not> strdup_ok w \<longrightarrow>
      proc_self_dirname OpenBSD w = Inl Undefined_behaviour) \<and>
   (getenv w ''PATH'' \<noteq> None \<and> strdup_ok w \<longrightarrow> (\<exists>d. proc_self_dirname OpenBSD w = Inr d)) \<and>
   proc_self_dirname OpenBSD w \<noteq> Inl (Exit_failure Strdup_failed) \<and>
   path_search w comm \<noteq> Inl (Exit_failure Strdup_failed)"
  by (auto simp: proc_self_dirname_openbsd_eq path_search_eq strtok_r_first_def
      split: option.splits)

theorem openbsd_strdup_guard_is_late_witness:
  "proc_self_dirname OpenBSD no_path_world = Inl Undefined_behaviour \<and>
   proc_self_dirname OpenBSD no_memory_world = Inl Undefined_behaviour \<and>
   (\<exists>d. proc_self_dirname OpenBSD example_world = Inr d)"
proof -
  have n: "sysctl_size no_path_world = Some 32" "malloc_ok no_path_world 32"
    "sysctl_argv no_path_world 32 = Some [''tool'']" "getenv no_path_world ''PATH'' = None"
    by (simp_all add: no_path_world_def example_world_def)
  have m: "sysctl_size no_memory_world = Some 32" "malloc_ok no_memory_world 32"
    "sysctl_argv no_memory_world 32 = Some [''tool'']" "\<not> strdup_ok no_memory_world"
    by (simp_all add: no_memory_world_def example_world_def)
  have e: "getenv example_world ''PATH'' \<noteq> None"
    by (simp add: example_world_def)
  show ?thesis
    using openbsd_strdup_guard_is_late [OF n(1,2,3) ex_openbsd_args(4)] n(4)
      openbsd_strdup_guard_is_late [OF m(1,2,3) ex_openbsd_args(4)] m(4)
      openbsd_strdup_guard_is_late [OF ex_openbsd_args(1,2,3,4)] e ex_openbsd_args(6)
    by blast
qed

subsection \<open>The fixed buffers\<close>

lemma of_char_NUL: "(of_char NUL :: nat) = 0"
  by (simp add: NUL_def)

lemma tstr_of_char: "NUL \<notin> set s \<Longrightarrow> tstr (map of_char s) = map of_char s"
proof -
  assume a: "NUL \<notin> set s"
  have "(of_char c :: nat) \<noteq> 0" if "c \<in> set s" for c
  proof
    assume "(of_char c :: nat) = 0"
    then have "(of_char c :: nat) = of_char NUL" by (simp only: of_char_NUL)
    then have "c = NUL" by (simp only: of_char_eq_iff)
    with a that show False by simp
  qed
  then show ?thesis by (simp add: tstr_def)
qed

lemma unit_separator_of_char: "unit_separator (of_char x) = separator x"
  unfolding unit_separator_def separator_def by (simp only: of_char_eq_iff)

lemma dirname_win_of_char:
  "separator c \<Longrightarrow> \<forall>x\<in>set name. \<not> separator x \<Longrightarrow>
   map char_of (dirname_win (map of_char (xs @ c # name))) = xs @ [c]"
proof -
  assume c: "separator c" and n: "\<forall>x\<in>set name. \<not> separator x"
  have "dirname_win (map of_char xs @ of_char c # map of_char name) = map of_char xs @ [of_char c]"
    using c n by (intro dirname_win_append) (simp_all add: unit_separator_of_char)
  then show ?thesis by (simp add: comp_def)
qed

lemma path_entries_single: "s \<noteq> [] \<Longrightarrow> CHR '':'' \<notin> set s \<Longrightarrow> path_entries s = [s]"
proof -
  assume a: "s \<noteq> []" "CHR '':'' \<notin> set s"
  from a(2) have "takeWhile (\<lambda>c. c \<noteq> CHR '':'') s = s" "dropWhile (\<lambda>c. c \<noteq> CHR '':'') s = []"
    by auto
  then have "split_colon s = [s]"
    by (subst split_colon_unfold) (simp only: list.case)
  with a(1) show ?thesis by (simp add: path_entries_def)
qed

lemma win32_returns:
  "module_file_name w = Some full \<Longrightarrow> full \<noteq> [] \<Longrightarrow>
   short_path_name w (take (MAX_PATH w) full) = Some short \<Longrightarrow> short \<noteq> [] \<Longrightarrow>
   length short \<le> MAX_PATH w \<Longrightarrow>
   proc_self_dirname Win32 w = Inr (map char_of (dirname_win (tstr short)))"
  by (simp add: proc_self_dirname_win32_eq)

text \<open>
  C7, as the code has it. No variant with a fixed buffer tests whether the
  buffer was filled; each tests only whether the call failed. On Linux a failed
  \<^verbatim>\<open>readlink\<close> is fatal, and what \<^verbatim>\<open>readlink\<close> delivers, at most \<^verbatim>\<open>PATH_MAX\<close> bytes
  of the link target, is cut after its last \<open>/\<close>: the directory of the target
  when the target is no longer than the buffer. On Win32 a zero from
  \<^verbatim>\<open>GetModuleFileName\<close> or from \<^verbatim>\<open>GetShortPathName\<close> is fatal; otherwise the module
  path is cut to \<^verbatim>\<open>MAX_PATH\<close> characters before its short form is asked for, and
  the short form that fits is returned cut after its last separator. On
  OpenBSD the path joined from an entry of \<^verbatim>\<open>PATH\<close> is cut to \<^verbatim>\<open>PATH_MAX - 1\<close>
  characters before it is tested.
\<close>

theorem fixed_buffers_cut_silently:
  "(readlink_target w ''/proc/self/exe'' = None \<longrightarrow>
      proc_self_dirname Linux w = Inl (Exit_failure Readlink_failed)) \<and>
   (readlink_target w ''/proc/self/exe'' = Some target \<longrightarrow>
      proc_self_dirname Linux w = Inr (dirname_of (take (PATH_MAX w) target))) \<and>
   (readlink_target w ''/proc/self/exe'' = Some target \<and> length target \<le> PATH_MAX w \<longrightarrow>
      proc_self_dirname Linux w = Inr (dirname_of target)) \<and>
   (module_file_name w = None \<or> module_file_name w = Some [] \<longrightarrow>
      proc_self_dirname Win32 w = Inl (Exit_failure GetModuleFileName_failed)) \<and>
   (module_file_name w = Some full \<and> full \<noteq> [] \<and>
    (short_path_name w (take (MAX_PATH w) full) = None \<or>
     short_path_name w (take (MAX_PATH w) full) = Some []) \<longrightarrow>
      proc_self_dirname Win32 w = Inl (Exit_failure GetShortPathName_failed)) \<and>
   (module_file_name w = Some full \<and> full \<noteq> [] \<and>
    short_path_name w (take (MAX_PATH w) full) = Some short \<and> short \<noteq> [] \<and>
    length short \<le> MAX_PATH w \<longrightarrow>
      proc_self_dirname Win32 w = Inr (map char_of (dirname_win (tstr short)))) \<and>
   (sysctl_size w = Some n \<and> malloc_ok w n \<and> sysctl_argv w n = Some (comm # rest) \<and>
    \<not> path_like comm \<and> getenv w ''PATH'' = Some p \<and> strdup_ok w \<longrightarrow>
      proc_self_dirname OpenBSD w =
        Inr (case List.find (stat_xusr w)
                    (map (\<lambda>e. take (PATH_MAX w - 1) (e @ ''/'' @ comm)) (path_entries p)) of
               None \<Rightarrow> []
             | Some epath \<Rightarrow> dirname_of epath))"
proof -
  have o: "proc_self_dirname OpenBSD w =
        Inr (case List.find (stat_xusr w)
                    (map (\<lambda>e. take (PATH_MAX w - 1) (e @ ''/'' @ comm)) (path_entries p)) of
               None \<Rightarrow> []
             | Some epath \<Rightarrow> dirname_of epath)"
    if "sysctl_size w = Some n" "malloc_ok w n" "sysctl_argv w n = Some (comm # rest)"
      "\<not> path_like comm" "getenv w ''PATH'' = Some p" "strdup_ok w"
    using that
    by (simp add: proc_self_dirname_openbsd_eq path_search_eq snprintf_def split: option.splits)
  show ?thesis
    using o by (auto simp: proc_self_dirname_linux_eq proc_self_dirname_win32_eq)
qed


lemma length_long_dir: "length long_dir = 258"
  by (simp add: long_dir_def length_concat_replicate)

lemma NUL_long_dir: "NUL \<notin> set long_dir"
  by (auto simp: long_dir_def NUL_def)

lemma length_long_entry_dir: "length long_entry_dir = 1022"
  by (simp add: long_entry_dir_def length_concat_replicate)

lemma colon_long_entry_dir: "CHR '':'' \<notin> set long_entry_dir"
  by (auto simp: long_entry_dir_def)

text \<open>
  Two runs in which a cut path is used and nothing is detected. On Win32, with
  a module path of 276 characters and \<^verbatim>\<open>MAX_PATH\<close> 260, \<^verbatim>\<open>GetModuleFileName\<close>
  stores the first 260 characters, which name the directory \<^verbatim>\<open>b\<close>, and returns
  a value that is not zero; the result is the directory above \<^verbatim>\<open>b\<close>, where the
  program lies in \<^verbatim>\<open>b\bin\<close>. On OpenBSD, with \<^verbatim>\<open>PATH_MAX\<close> 1024 and the one
  \<^verbatim>\<open>PATH\<close> entry \<^verbatim>\<open>/b/././.../cc\<close> of 1025 characters, the joined path of 1030
  characters is cut to \<^verbatim>\<open>/b/././.../\<close>, which \<^verbatim>\<open>stat\<close> finds as a directory with the
  owner's execute bit, and that is returned.
\<close>

theorem fixed_buffers_cut_silently_counterexample:
  "module_file_name long_module_world = Some (map of_char long_module) \<and>
   MAX_PATH long_module_world = 260 \<and> length long_module = 276 \<and>
   map char_of (dirname_win (map of_char long_module))
     = long_dir @ [CHR 0x5C] @ ''b'' @ [CHR 0x5C] @ ''bin'' @ [CHR 0x5C] \<and>
   proc_self_dirname Win32 long_module_world = Inr (long_dir @ [CHR 0x5C]) \<and>
   getenv long_entry_world ''PATH'' = Some (long_entry_dir @ ''/cc'') \<and>
   PATH_MAX long_entry_world = 1024 \<and>
   length (long_entry_dir @ ''/cc'' @ ''/'' @ ''tool'') = 1030 \<and>
   proc_self_dirname OpenBSD long_entry_world = Inr (long_entry_dir @ ''/'')"
proof -
  have w1: "module_file_name long_module_world = Some (map of_char long_module)"
    "MAX_PATH long_module_world = 260"
    "short_path_name long_module_world = (\<lambda>p. Some p)"
    by (simp_all add: long_module_world_def example_world_def)
  have w2: "length long_module = 276"
    by (simp add: long_module_def length_long_dir)
  have w3: "map char_of (dirname_win (map of_char long_module))
     = long_dir @ [CHR 0x5C] @ ''b'' @ [CHR 0x5C] @ ''bin'' @ [CHR 0x5C]"
    using dirname_win_of_char [of "CHR 0x5C" "''icetime.exe''"
        "long_dir @ [CHR 0x5C] @ ''b'' @ [CHR 0x5C] @ ''bin''"]
    by (simp add: long_module_def separator_def)
  have cut: "take 260 (map of_char long_module) = map of_char (long_dir @ CHR 0x5C # ''b'')"
    by (simp add: long_module_def take_map length_long_dir)
  have t: "tstr (map of_char (long_dir @ CHR 0x5C # ''b'')) = map of_char (long_dir @ CHR 0x5C # ''b'')"
    using NUL_long_dir by (intro tstr_of_char) (simp add: NUL_def)
  have c: "map char_of (dirname_win (map of_char (long_dir @ CHR 0x5C # ''b''))) = long_dir @ [CHR 0x5C]"
    by (rule dirname_win_of_char) (simp_all add: separator_def)
  have sp: "short_path_name long_module_world (take (MAX_PATH long_module_world) (map of_char long_module))
      = Some (map of_char (long_dir @ CHR 0x5C # ''b''))"
    by (simp only: w1 cut)
  have l: "length (map of_char (long_dir @ CHR 0x5C # ''b'') :: nat list) \<le> MAX_PATH long_module_world"
    by (simp add: length_long_dir w1)
  have ne: "map of_char long_module \<noteq> ([] :: nat list)"
    "map of_char (long_dir @ CHR 0x5C # ''b'') \<noteq> ([] :: nat list)"
    by (simp_all add: long_module_def)
  from win32_returns [OF w1(1) ne(1) sp ne(2) l]
  have w4: "proc_self_dirname Win32 long_module_world = Inr (long_dir @ [CHR 0x5C])"
    by (simp only: t c)
  have o1: "getenv long_entry_world ''PATH'' = Some (long_entry_dir @ ''/cc'')"
    "PATH_MAX long_entry_world = 1024"
    "sysctl_size long_entry_world = Some 32" "malloc_ok long_entry_world 32"
    "sysctl_argv long_entry_world 32 = Some [''tool'']" "strdup_ok long_entry_world"
    by (simp_all add: long_entry_world_def example_world_def)
  have o2: "length (long_entry_dir @ ''/cc'' @ ''/'' @ ''tool'') = 1030"
    by (simp add: length_long_entry_dir)
  have pe: "path_entries (long_entry_dir @ ''/cc'') = [long_entry_dir @ ''/cc'']"
    using colon_long_entry_dir by (intro path_entries_single) simp_all
  have j: "snprintf 1024 ((long_entry_dir @ ''/cc'') @ ''/'' @ ''tool'') = long_entry_dir @ ''/''"
    by (simp add: snprintf_def length_long_entry_dir)
  have st: "stat_xusr long_entry_world (long_entry_dir @ ''/'')"
    by (simp add: stat_xusr_def long_entry_world_def S_IXUSR_def)
  have dn: "dirname_of (long_entry_dir @ ''/'') = long_entry_dir @ ''/''"
    using dirname_of_append [of "[]" long_entry_dir] by simp
  have ps: "path_search long_entry_world ''tool'' = Inr (Some (long_entry_dir @ ''/''))"
    using st by (simp only: path_search_eq o1 pe j option.case if_True list.map find.simps)
  have o3: "proc_self_dirname OpenBSD long_entry_world = Inr (long_entry_dir @ ''/'')"
    by (simp add: proc_self_dirname_openbsd_eq o1 path_like_def ps dn)
  from w1(1,2) w2 w3 w4 o1(1,2) o2 o3 show ?thesis
    by (intro conjI)
qed


theorem fixed_buffers_cut_silently_witness:
  "proc_self_dirname Linux example_world = Inr ''/usr/local/bin/'' \<and>
   proc_self_dirname Linux no_exe_world = Inl (Exit_failure Readlink_failed) \<and>
   proc_self_dirname Win32 example_world = Inr (''C:'' @ [CHR 0x5C] @ ''ice'' @ [CHR 0x5C]) \<and>
   proc_self_dirname Win32 (example_world\<lparr>module_file_name := None\<rparr>)
     = Inl (Exit_failure GetModuleFileName_failed) \<and>
   proc_self_dirname Win32 (example_world\<lparr>short_path_name := (\<lambda>p. None)\<rparr>)
     = Inl (Exit_failure GetShortPathName_failed)"
proof -
  let ?m = "''C:'' @ [CHR 0x5C] @ ''ice'' @ [CHR 0x5C] @ ''icetime.exe''"
  let ?u = "map of_char ?m :: nat list"
  note T = fixed_buffers_cut_silently
  have l: "readlink_target example_world ''/proc/self/exe'' = Some ''/usr/local/bin/icetime''"
    "length ''/usr/local/bin/icetime'' \<le> PATH_MAX example_world"
    by (simp_all add: example_world_def)
  have x: "readlink_target no_exe_world ''/proc/self/exe'' = None"
    by (simp add: no_exe_world_def)
  have m: "module_file_name example_world = Some ?u" "?u \<noteq> []"
    "short_path_name example_world (take (MAX_PATH example_world) ?u) = Some ?u"
    "length ?u \<le> MAX_PATH example_world"
    by (simp_all add: example_world_def)
  have g: "module_file_name (example_world\<lparr>module_file_name := None\<rparr>) = None"
    by simp
  have h: "module_file_name (example_world\<lparr>short_path_name := (\<lambda>p. None)\<rparr>) = Some ?u"
    "short_path_name (example_world\<lparr>short_path_name := (\<lambda>p. None)\<rparr>)
       (take (MAX_PATH (example_world\<lparr>short_path_name := (\<lambda>p. None)\<rparr>)) ?u) = None"
    by (simp_all add: example_world_def)
  have d: "dirname_of ''/usr/local/bin/icetime'' = ''/usr/local/bin/''"
    by (simp add: dirname_of_def)
  have "tstr ?u = ?u"
    by (rule tstr_of_char) (simp add: NUL_def)
  moreover have "map char_of (dirname_win ?u) = ''C:'' @ [CHR 0x5C] @ ''ice'' @ [CHR 0x5C]"
    using dirname_win_of_char [of "CHR 0x5C" "''icetime.exe''" "''C:'' @ [CHR 0x5C] @ ''ice''"]
    by (simp add: separator_def)
  ultimately have e: "map char_of (dirname_win (tstr ?u)) = ''C:'' @ [CHR 0x5C] @ ''ice'' @ [CHR 0x5C]"
    by (simp only:)
  from T [of example_world "''/usr/local/bin/icetime''"] l
  have "proc_self_dirname Linux example_world = Inr (dirname_of ''/usr/local/bin/icetime'')"
    by blast
  then have 1: "proc_self_dirname Linux example_world = Inr ''/usr/local/bin/''"
    by (simp only: d)
  from T [of no_exe_world] x
  have 2: "proc_self_dirname Linux no_exe_world = Inl (Exit_failure Readlink_failed)"
    by blast
  from T [of example_world _ ?u ?u] m
  have "proc_self_dirname Win32 example_world = Inr (map char_of (dirname_win (tstr ?u)))"
    by blast
  then have 3: "proc_self_dirname Win32 example_world = Inr (''C:'' @ [CHR 0x5C] @ ''ice'' @ [CHR 0x5C])"
    by (simp only: e)
  from T [of "example_world\<lparr>module_file_name := None\<rparr>"] g
  have 4: "proc_self_dirname Win32 (example_world\<lparr>module_file_name := None\<rparr>)
     = Inl (Exit_failure GetModuleFileName_failed)"
    by blast
  from T [of "example_world\<lparr>short_path_name := (\<lambda>p. None)\<rparr>" _ ?u] h m(2)
  have 5: "proc_self_dirname Win32 (example_world\<lparr>short_path_name := (\<lambda>p. None)\<rparr>)
     = Inl (Exit_failure GetShortPathName_failed)"
    by blast
  from 1 2 3 4 5 show ?thesis by (intro conjI)
qed

end
